theory Spec2Isabelle
  imports Complex_Main
begin

section \<open>Network records and the record store\<close>

text \<open>
  The program keeps every observed network exchange in one process-wide JavaScript
  \<^verbatim>\<open>Map<string, any>\<close> called \<^verbatim>\<open>networkRequests\<close>. The stored objects are untyped;
  a property that was never written, or was written as \<^verbatim>\<open>undefined\<close>, reads as
  \<^verbatim>\<open>undefined\<close>, which is \<open>None\<close> here. Timestamps are the transport's numbers
  (seconds with a fraction); they are finite reals here.
\<close>

type_synonym header_map = "(string \<times> string) list"

text \<open>The \<^verbatim>\<open>request\<close> object of a \<^verbatim>\<open>Network.requestWillBeSent\<close> event.\<close>

record request_payload =
  rq_url :: "string option"
  rq_method :: "string option"
  rq_headers :: "header_map option"
  rq_postData :: "string option"

text \<open>
  The \<^verbatim>\<open>response\<close> object of a \<^verbatim>\<open>Network.responseReceived\<close> event; the handlers
  copy exactly these five fields into the stored \<^verbatim>\<open>response\<close> sub-object, so the
  same record type is used for both.
\<close>

record response_payload =
  rs_url :: "string option"
  rs_status :: "int option"
  rs_statusText :: "string option"
  rs_headers :: "header_map option"
  rs_mimeType :: "string option"

record net_record =
  requestId :: string
  url :: "string option"
  "method" :: "string option"
  headers :: "header_map option"
  postData :: "string option"
  timestamp :: "real option"
  rec_type :: "string option"
  response :: "response_payload option"
  responseTimestamp :: "real option"

text \<open>
  A JavaScript \<^verbatim>\<open>Map\<close> iterates in insertion order, and \<^verbatim>\<open>set\<close> on a key that is
  already present keeps the key's position. The store is therefore an association list
  with update in place.
\<close>

type_synonym store = "(string \<times> net_record) list"

fun map_get :: "store \<Rightarrow> string \<Rightarrow> net_record option" where
  "map_get [] k = None"
| "map_get ((k', v) # kvs) k = (if k' = k then Some v else map_get kvs k)"

fun map_set :: "store \<Rightarrow> string \<Rightarrow> net_record \<Rightarrow> store" where
  "map_set [] k v = [(k, v)]"
| "map_set ((k', v') # kvs) k v =
     (if k' = k then (k, v) # kvs else (k', v') # map_set kvs k v)"


text \<open>The object \<^verbatim>\<open>{}\<close> that the response handler falls back to: every property absent.
  (\<^verbatim>\<open>requestId\<close> is written by the handler before the object is stored.)\<close>

definition empty_object :: "string \<Rightarrow> net_record" where
  "empty_object rid =
     \<lparr> requestId = rid, url = None, method = None, headers = None, postData = None,
       timestamp = None, rec_type = None, response = None, responseTimestamp = None \<rparr>"

text \<open>
  \<^verbatim>\<open>Network.requestWillBeSent\<close> handler (lines 227-239, and again 568-581): the record
  for the id is replaced by a fresh object that holds the request fields only.
\<close>

definition onRequestSent :: "string \<Rightarrow> request_payload \<Rightarrow> real option \<Rightarrow> store \<Rightarrow> store" where
  "onRequestSent rid request ts s =
     map_set s rid
       \<lparr> requestId = rid, url = rq_url request, method = rq_method request,
         headers = rq_headers request, postData = rq_postData request,
         timestamp = ts, rec_type = Some ''request'',
         response = None, responseTimestamp = None \<rparr>"

text \<open>
  \<^verbatim>\<open>Network.responseReceived\<close> handler (lines 241-257, and again 583-600):
  \<^verbatim>\<open>existing = networkRequests.get(requestId) || {}\<close> (a stored object is always truthy),
  then the spread \<^verbatim>\<open>{...existing, requestId, response: {...}, responseTimestamp}\<close>.
\<close>

definition stored_response :: "response_payload \<Rightarrow> response_payload" where
  "stored_response resp =
     \<lparr> rs_url = rs_url resp, rs_status = rs_status resp, rs_statusText = rs_statusText resp,
       rs_headers = rs_headers resp, rs_mimeType = rs_mimeType resp \<rparr>"

definition onResponseReceived :: "string \<Rightarrow> response_payload \<Rightarrow> real option \<Rightarrow> store \<Rightarrow> store" where
  "onResponseReceived rid resp ts s =
     (let existing = (case map_get s rid of None \<Rightarrow> empty_object rid | Some e \<Rightarrow> e)
      in map_set s rid
           (existing \<lparr> requestId := rid, response := Some (stored_response resp),
                       responseTimestamp := ts \<rparr>))"

text \<open>The two event kinds, and a store fed with a sequence of events in delivery order.\<close>

datatype network_event =
    RequestWillBeSent string request_payload "real option"
  | ResponseReceived string response_payload "real option"

fun ingest :: "store \<Rightarrow> network_event \<Rightarrow> store" where
  "ingest s (RequestWillBeSent rid request ts) = onRequestSent rid request ts s"
| "ingest s (ResponseReceived rid resp ts) = onResponseReceived rid resp ts s"

definition ingest_all :: "store \<Rightarrow> network_event list \<Rightarrow> store" where
  "ingest_all s evs = foldl ingest s evs"




text \<open>A run of response events for one id, and two sample payloads.\<close>

fun response_events :: "string \<Rightarrow> (response_payload \<times> real option) list \<Rightarrow> network_event list" where
  "response_events rid [] = []"
| "response_events rid ((resp, ts) # rest) = ResponseReceived rid resp ts # response_events rid rest"

definition example_request :: request_payload where
  "example_request = \<lparr> rq_url = Some ''http://a/x'', rq_method = Some ''GET'',
     rq_headers = None, rq_postData = None \<rparr>"

definition example_response :: response_payload where
  "example_response = \<lparr> rs_url = Some ''http://a/x'', rs_status = Some 200,
     rs_statusText = Some ''OK'', rs_headers = None, rs_mimeType = Some ''text/html'' \<rparr>"

section \<open>Query engine (query-network-traffic, lines 260-286)\<close>

subsection \<open>JavaScript strings and regular expressions\<close>

text \<open>
  Strings are lists of 8-bit characters here; the model is exact for ASCII text.
  \<^verbatim>\<open>toLowerCase\<close> and the canonicalisation of the \<^verbatim>\<open>i\<close> flag (upper-casing) act on
  the letters a-z and A-Z only and leave every other character alone.
\<close>

definition lower_letters :: string where
  "lower_letters = ''abcdefghijklmnopqrstuvwxyz''"

definition upper_letters :: string where
  "upper_letters = ''ABCDEFGHIJKLMNOPQRSTUVWXYZ''"

definition to_upper_char :: "char \<Rightarrow> char" where
  "to_upper_char c =
     (case map_of (zip lower_letters upper_letters) c of None \<Rightarrow> c | Some u \<Rightarrow> u)"

definition to_lower_char :: "char \<Rightarrow> char" where
  "to_lower_char c =
     (case map_of (zip upper_letters lower_letters) c of None \<Rightarrow> c | Some l \<Rightarrow> l)"

definition toLowerCase :: "string \<Rightarrow> string" where
  "toLowerCase s = map to_lower_char s"

text \<open>\<^verbatim>\<open>String(x)\<close> of a property that may be \<^verbatim>\<open>undefined\<close>, as \<^verbatim>\<open>RegExp.test\<close> applies it.\<close>

definition js_to_string :: "string option \<Rightarrow> string" where
  "js_to_string v = (case v of None \<Rightarrow> ''undefined'' | Some s \<Rightarrow> s)"

text \<open>\<^verbatim>\<open>urlFilter.replace(/\*/g, ".*")\<close>: every star becomes dot-star, every other
  character is copied as it is.\<close>

definition replace_stars :: "string \<Rightarrow> string" where
  "replace_stars f = concat (map (\<lambda>c. if c = CHR ''*'' then ''.*'' else [c]) f)"

text \<open>
  \<^verbatim>\<open>new RegExp(source, "i")\<close> and \<^verbatim>\<open>pattern.test(text)\<close> are the JavaScript engine's,
  not this repository's. The filter takes the engine as a parameter: a function from the
  pattern source and the flags to the \<^verbatim>\<open>SyntaxError\<close> that the constructor throws, or to
  the test of the compiled pattern.
\<close>

datatype regexp_error = SyntaxError

type_synonym regexp_engine = "string \<Rightarrow> string \<Rightarrow> regexp_error + (string \<Rightarrow> bool)"

subsection \<open>What ECMAScript says about a fragment of the pattern language\<close>

text \<open>
  The theorems about what a filter matches need to know what the engine does. They assume
  that it follows ECMAScript on the fragment of the pattern language described here, with
  the flag \<^verbatim>\<open>i\<close> alone, and nothing about any other pattern or other flags. The fragment: a pattern is a sequence of terms; a term
  is an atom, alone or followed by one of the quantifiers \<^verbatim>\<open>* + ?\<close>, which may carry
  the lazy mark \<^verbatim>\<open>?\<close>; an atom is an ordinary character, the dot, or a backslash
  followed by a syntax character or a slash (the character itself). A quantifier with
  nothing to repeat and a backslash at the end of the pattern are syntax errors. A pattern
  with an assertion, a group, a class, a brace, an alternative or any other escape is
  outside the fragment.
\<close>

datatype atom = Lit char | Dot

datatype rterm = Once atom | Star atom | Plus atom | Opt atom

definition quantifier_chars :: "char list" where
  "quantifier_chars = [CHR ''*'', CHR ''+'', CHR ''?'']"

definition other_syntax_chars :: "char list" where
  "other_syntax_chars =
     [CHR ''^'', CHR ''$'', CHR ''('', CHR '')'', CHR ''['', CHR '']'', CHR ''{'', CHR ''}'',
      CHR ''|'']"

definition syntax_chars :: "char list" where
  "syntax_chars = [CHR 0x5C, CHR ''.''] @ quantifier_chars @ other_syntax_chars"

text \<open>What may follow a backslash in the fragment: the syntax characters and the slash.\<close>

definition escapable_chars :: "char list" where
  "escapable_chars = CHR ''/'' # syntax_chars"

definition atom_of :: "char \<Rightarrow> atom" where
  "atom_of c = (if c = CHR ''.'' then Dot else Lit c)"

definition quantify :: "char \<Rightarrow> atom \<Rightarrow> rterm" where
  "quantify q a = (if q = CHR ''*'' then Star a else if q = CHR ''+'' then Plus a else Opt a)"

text \<open>
  The reader goes through the source from left to right. Its state says what the next
  character may refer to: nothing (\<open>Start\<close>), an atom that is not yet part of a term
  (\<open>Pending\<close>), a quantifier that may still get its lazy mark (\<open>Quantified\<close>), or a
  backslash (\<open>Escaping\<close>). The result is \<open>None\<close> for a pattern outside the fragment.
\<close>

datatype reader_state = Start | Pending atom | Quantified | Escaping

definition flush :: "rterm list \<Rightarrow> reader_state \<Rightarrow> rterm list" where
  "flush acc st = (case st of Pending a \<Rightarrow> acc @ [Once a] | other \<Rightarrow> acc)"

fun read_pattern ::
  "rterm list \<Rightarrow> reader_state \<Rightarrow> string \<Rightarrow> (regexp_error + rterm list) option" where
  "read_pattern acc st [] =
     (if st = Escaping then Some (Inl SyntaxError) else Some (Inr (flush acc st)))"
| "read_pattern acc st (c # cs) =
     (if st = Escaping
      then (if c \<in> set escapable_chars then read_pattern acc (Pending (Lit c)) cs else None)
      else if c = CHR 0x5C then read_pattern (flush acc st) Escaping cs
      else if c \<in> set quantifier_chars
      then (case st of
              Pending a \<Rightarrow> read_pattern (acc @ [quantify c a]) Quantified cs
            | Quantified \<Rightarrow>
                if c = CHR ''?'' then read_pattern acc Start cs else Some (Inl SyntaxError)
            | other \<Rightarrow> Some (Inl SyntaxError))
      else if c \<in> set other_syntax_chars then None
      else read_pattern (flush acc st) (Pending (atom_of c)) cs)"

definition fragment_pattern :: "string \<Rightarrow> (regexp_error + rterm list) option" where
  "fragment_pattern source = read_pattern [] Start source"

text \<open>With the \<^verbatim>\<open>i\<close> flag a literal matches a character with the same canonical
  (upper-case) form; the dot matches every character but a line terminator.\<close>

fun atom_matches :: "atom \<Rightarrow> char \<Rightarrow> bool" where
  "atom_matches (Lit a) c = (to_upper_char a = to_upper_char c)"
| "atom_matches Dot c = (c \<noteq> CHR 0x0A \<and> c \<noteq> CHR 0x0D)"

text \<open>Does the pattern match a prefix of the text? A quantified atom takes a character
  or goes on without it; whether it tries the one or the other first (greedy or lazy)
  does not change whether there is a match.\<close>

fun match_here :: "rterm list \<Rightarrow> string \<Rightarrow> bool" where
  "match_here [] s = True"
| "match_here (Once a # ts) [] = False"
| "match_here (Once a # ts) (c # cs) = (atom_matches a c \<and> match_here ts cs)"
| "match_here (Star a # ts) [] = match_here ts []"
| "match_here (Star a # ts) (c # cs) =
     ((atom_matches a c \<and> match_here (Star a # ts) cs) \<or> match_here ts (c # cs))"
| "match_here (Plus a # ts) [] = False"
| "match_here (Plus a # ts) (c # cs) = (atom_matches a c \<and> match_here (Star a # ts) cs)"
| "match_here (Opt a # ts) [] = match_here ts []"
| "match_here (Opt a # ts) (c # cs) =
     ((atom_matches a c \<and> match_here ts cs) \<or> match_here ts (c # cs))"

text \<open>\<^verbatim>\<open>pattern.test(text)\<close> without the \<^verbatim>\<open>g\<close> or \<^verbatim>\<open>y\<close> flag: a match may start at
  every position of the text, the end included.\<close>

fun regexp_test :: "rterm list \<Rightarrow> string \<Rightarrow> bool" where
  "regexp_test p [] = match_here p []"
| "regexp_test p (c # cs) = (match_here p (c # cs) \<or> regexp_test p cs)"

text \<open>A pattern with the case of its literals changed by \<open>g\<close>.\<close>

fun recase_atom :: "(char \<Rightarrow> char) \<Rightarrow> atom \<Rightarrow> atom" where
  "recase_atom g (Lit c) = Lit (g c)"
| "recase_atom g Dot = Dot"

fun recase_term :: "(char \<Rightarrow> char) \<Rightarrow> rterm \<Rightarrow> rterm" where
  "recase_term g (Once a) = Once (recase_atom g a)"
| "recase_term g (Star a) = Star (recase_atom g a)"
| "recase_term g (Plus a) = Plus (recase_atom g a)"
| "recase_term g (Opt a) = Opt (recase_atom g a)"

fun recase_state :: "(char \<Rightarrow> char) \<Rightarrow> reader_state \<Rightarrow> reader_state" where
  "recase_state g (Pending a) = Pending (recase_atom g a)"
| "recase_state g Start = Start"
| "recase_state g Quantified = Quantified"
| "recase_state g Escaping = Escaping"

text \<open>An engine follows ECMAScript on the fragment when, for every source in the
  fragment and the flags \<^verbatim>\<open>"i"\<close>, it throws where the fragment has a syntax error and
  otherwise tests as the terms say.\<close>

definition answer_on_fragment ::
  "(regexp_error + rterm list) \<Rightarrow> regexp_error + (string \<Rightarrow> bool)" where
  "answer_on_fragment parsed =
     (case parsed of Inl e \<Rightarrow> Inl e | Inr ts \<Rightarrow> Inr (regexp_test ts))"

definition ecmascript_on_fragment :: "regexp_engine \<Rightarrow> bool" where
  "ecmascript_on_fragment rx =
     (\<forall>source parsed. fragment_pattern source = Some parsed \<longrightarrow>
        rx source ''i'' = answer_on_fragment parsed)"

text \<open>One such engine, to have an instance of the assumption. What it does with other
  flags or outside the fragment (it throws) is an arbitrary choice, not a statement about
  real engines; the examples use it inside the fragment only.\<close>

definition fragment_only_engine :: regexp_engine where
  "fragment_only_engine source flags =
     (if flags = ''i''
      then (case fragment_pattern source of
              None \<Rightarrow> Inl SyntaxError
            | Some parsed \<Rightarrow> answer_on_fragment parsed)
      else Inl SyntaxError)"

subsection \<open>Filter, sort, limit\<close>

text \<open>
  The three filters run in the source's order; each is skipped when its argument is
  falsy (\<^verbatim>\<open>undefined\<close>, the empty string, the number 0). The pattern is
  \<^verbatim>\<open>new RegExp(urlFilter.replace(/\*/g, ".*"), "i")\<close>; the constructor may throw, and
  the throw leaves the handler through its \<^verbatim>\<open>catch\<close>, here the \<open>Inl\<close> result.
\<close>

definition filter_by_url ::
  "regexp_engine \<Rightarrow> string option \<Rightarrow> net_record list \<Rightarrow> regexp_error + net_record list" where
  "filter_by_url rx urlFilter reqs =
     (case urlFilter of
        None \<Rightarrow> Inr reqs
      | Some f \<Rightarrow>
          if f = [] then Inr reqs
          else (case rx (replace_stars f) ''i'' of
                  Inl e \<Rightarrow> Inl e
                | Inr pattern_test \<Rightarrow>
                    Inr (filter (\<lambda>req. pattern_test (js_to_string (url req))) reqs)))"



text \<open>\<^verbatim>\<open>a.timestamp || 0\<close> and the comparator \<^verbatim>\<open>(b.timestamp || 0) - (a.timestamp || 0)\<close>.\<close>

definition timestamp_or_zero :: "net_record \<Rightarrow> real" where
  "timestamp_or_zero r = (case timestamp r of None \<Rightarrow> 0 | Some t \<Rightarrow> t)"


text \<open>
  \<^verbatim>\<open>Array.prototype.sort(compare)\<close> is a stable sort: an element goes before the first
  element that the comparator does not put before it. This is insertion from the right.
\<close>

fun insert_sorted :: "('a \<Rightarrow> 'a \<Rightarrow> real) \<Rightarrow> 'a \<Rightarrow> 'a list \<Rightarrow> 'a list" where
  "insert_sorted cmp x [] = [x]"
| "insert_sorted cmp x (y # ys) =
     (if cmp x y \<le> 0 then x # y # ys else y # insert_sorted cmp x ys)"

definition array_sort :: "('a \<Rightarrow> 'a \<Rightarrow> real) \<Rightarrow> 'a list \<Rightarrow> 'a list" where
  "array_sort cmp xs = foldr (insert_sorted cmp) xs []"




text \<open>A record that has nothing but an id and a timestamp, for examples.\<close>

definition bare_record :: "string \<Rightarrow> string option \<Rightarrow> real option \<Rightarrow> net_record" where
  "bare_record rid u ts =
     \<lparr> requestId = rid, url = u, method = None, headers = None, postData = None,
       timestamp = ts, rec_type = None, response = None, responseTimestamp = None \<rparr>"


text \<open>Does the text contain the filter as a literal substring? (What an escaping
  compilation of the filter would test.)\<close>

fun contains_literal :: "string \<Rightarrow> string \<Rightarrow> bool" where
  "contains_literal f [] = (f = [])"
| "contains_literal f (c # cs) = (take (length f) (c # cs) = f \<or> contains_literal f cs)"

text \<open>The same without regard to case.\<close>

definition contains_ignoring_case :: "string \<Rightarrow> string \<Rightarrow> bool" where
  "contains_ignoring_case f u = contains_literal (map to_upper_char f) (map to_upper_char u)"

text \<open>A filter without any syntax character.\<close>

definition plain_text :: "string \<Rightarrow> bool" where
  "plain_text f = list_all (\<lambda>c. c \<notin> set syntax_chars) f"

text \<open>Does the filter keep a record with this url?\<close>

definition keeps_url :: "regexp_engine \<Rightarrow> string \<Rightarrow> string option \<Rightarrow> bool" where
  "keeps_url rx f u =
     (filter_by_url rx (Some f) [bare_record ''1'' u None] = Inr [bare_record ''1'' u None])"

definition drops_url :: "regexp_engine \<Rightarrow> string \<Rightarrow> string option \<Rightarrow> bool" where
  "drops_url rx f u = (filter_by_url rx (Some f) [bare_record ''1'' u None] = Inr [])"

section \<open>The server's state and its surroundings\<close>

text \<open>
  The three process-wide variables of the program (\<^verbatim>\<open>chromeProcess\<close>,
  \<^verbatim>\<open>networkRequests\<close>, \<^verbatim>\<open>cdpClient\<close>) are fields of one state record that every
  tool handler takes and returns. Two more fields are bookkeeping of the model: the
  number of \<^verbatim>\<open>CDP.List\<close> calls made so far, and the log of everything the handlers
  did to the outside world, in order.

  The browser, the operating system and the protocol library are not code of this
  program. What they answer is given by a record of the surroundings, which the
  theorems quantify over.
\<close>

record target =
  target_type :: string
  webSocketDebuggerUrl :: string

record child_process =
  pid :: "nat option"

datatype listener = PersistentRequestListener | PersistentResponseListener

record cdp_client =
  client_target :: string
  readyState :: "nat option"
  listeners :: "listener list"

datatype effect =
    ListTargets
  | Pkill
  | Sleep nat
  | Spawn string "string list"
  | KillProcess "nat option"
  | CloseClient string
  | Connect string
  | PageEnable
  | NetworkEnable
  | GetResponseBody string
  | GetRequestPostData string

record server_state =
  chromeProcess :: "child_process option"
  networkRequests :: store
  cdpClient :: "cdp_client option"
  list_calls :: nat
  effects :: "effect list"

text \<open>
  The surroundings. \<open>list_answer n\<close> is what the \<open>n\<close>-th call of \<^verbatim>\<open>CDP.List\<close>
  yields: the rejection's message or the target list. \<open>pkill_error\<close> and
  \<open>spawn_error\<close> are the messages of the \<^verbatim>\<open>error\<close> events of the \<^verbatim>\<open>pkill\<close> child and
  of the spawned browser process, if they emit one (executable not found, permission
  denied). A \<^verbatim>\<open>pkill\<close> child that emits no error is taken to close, so that the promise
  of \<^verbatim>\<open>killChromeDebugProcesses\<close> resolves. No definition reads \<open>close_error\<close>: the
  handler that closes a client ignores a failing close.
\<close>

record surroundings =
  list_answer :: "nat \<Rightarrow> string + target list"
  platform :: string
  tmp_user_data_dir :: string
  pkill_error :: "string option"
  spawn_pid :: "nat option"
  spawn_error :: "string option"
  close_error :: "string option"
  connect_error :: "string option"
  page_enable_error :: "string option"
  network_enable_error :: "string option"
  response_body_answer :: "string \<Rightarrow> string + (string \<times> bool)"
  post_data_answer :: "string \<Rightarrow> string + string option"

text \<open>What a tool call comes to: the text of its result, or the end of the host
  process by an exception that no handler catches.\<close>

datatype tool_result = Text string | HostCrash string

definition newline :: string where
  "newline = [CHR 0x0A]"

definition apostrophe :: string where
  "apostrophe = [CHR 0x27]"

definition backslash :: string where
  "backslash = [CHR 0x5C]"

text \<open>Decimal numerals, as a template literal prints a non-negative integer.\<close>

fun show_nat :: "nat \<Rightarrow> string" where
  "show_nat n =
     (if n < 10 then [''0123456789'' ! n] else show_nat (n div 10) @ [''0123456789'' ! (n mod 10)])"

definition show_int :: "int \<Rightarrow> string" where
  "show_int i = (if i < 0 then ''-'' @ show_nat (nat (- i)) else show_nat (nat i))"

definition do_effect :: "effect \<Rightarrow> server_state \<Rightarrow> server_state" where
  "do_effect e w = w \<lparr> effects := effects w @ [e] \<rparr>"

text \<open>\<^verbatim>\<open>CDP.List({ port: 9222 })\<close>.\<close>

definition CDP_List :: "surroundings \<Rightarrow> server_state \<Rightarrow> (string + target list) \<times> server_state" where
  "CDP_List env w =
     (list_answer env (list_calls w),
      do_effect ListTargets (w \<lparr> list_calls := Suc (list_calls w) \<rparr>))"

section \<open>Process supervisor (start-chrome-debug, lines 22-169)\<close>

definition getChromeExecutablePath :: "string \<Rightarrow> string" where
  "getChromeExecutablePath p =
     (if p = ''darwin'' then ''/Applications/Google Chrome.app/Contents/MacOS/Google Chrome''
      else if p = ''win32''
      then ''C:'' @ backslash @ ''Program Files'' @ backslash @ ''Google'' @ backslash @
           ''Chrome'' @ backslash @ ''Application'' @ backslash @ ''chrome.exe''
      else ''google-chrome'')"

text \<open>\<^verbatim>\<open>isChromeAccessible\<close>: a rejected listing is swallowed and reads as not
  accessible, without targets.\<close>

definition isChromeAccessible ::
  "surroundings \<Rightarrow> server_state \<Rightarrow> (bool \<times> target list option) \<times> server_state" where
  "isChromeAccessible env w =
     (case CDP_List env w of
        (Inl err, w') \<Rightarrow> ((False, None), w')
      | (Inr targets, w') \<Rightarrow> ((length targets > 0, Some targets), w'))"

text \<open>
  \<^verbatim>\<open>killChromeDebugProcesses\<close> (lines 46-58). The \<^verbatim>\<open>pkill\<close> child gets a listener for
  \<^verbatim>\<open>close\<close> only. If the child cannot be spawned it emits \<^verbatim>\<open>error\<close>; an \<^verbatim>\<open>error\<close>
  event without a listener is thrown by the emitter, outside the \<^verbatim>\<open>try\<close> of the
  function, and ends the host process: the result \<open>Some msg\<close>. Otherwise the function
  waits one second after the child has closed.
\<close>

definition killChromeDebugProcesses ::
  "surroundings \<Rightarrow> server_state \<Rightarrow> string option \<times> server_state" where
  "killChromeDebugProcesses env w =
     (case pkill_error env of
        Some msg \<Rightarrow> (Some msg, do_effect Pkill w)
      | None \<Rightarrow> (None, do_effect (Sleep 1000) (do_effect Pkill w)))"

text \<open>\<^verbatim>\<open>waitForChromeAccessible(maxRetries, delayMs)\<close>: the \<^verbatim>\<open>for\<close> loop, by recursion
  on the number of iterations that are left.\<close>

fun waitForChromeAccessible ::
  "surroundings \<Rightarrow> nat \<Rightarrow> nat \<Rightarrow> server_state \<Rightarrow> bool \<times> server_state" where
  "waitForChromeAccessible env 0 delayMs w = (False, w)"
| "waitForChromeAccessible env (Suc retries) delayMs w =
     (case isChromeAccessible env w of
        ((accessible, targets), w') \<Rightarrow>
          if accessible then (True, w')
          else waitForChromeAccessible env retries delayMs (do_effect (Sleep delayMs) w'))"

text \<open>\<^verbatim>\<open>targets?.length || 0\<close>, printed.\<close>

definition show_target_count :: "target list option \<Rightarrow> string" where
  "show_target_count targets = (case targets of None \<Rightarrow> ''0'' | Some ts \<Rightarrow> show_nat (length ts))"

definition show_pid :: "nat option \<Rightarrow> string" where
  "show_pid p = (case p of None \<Rightarrow> ''undefined'' | Some n \<Rightarrow> show_nat n)"

definition chrome_args :: "string \<Rightarrow> bool \<Rightarrow> string list" where
  "chrome_args tempUserDataDir headless =
     [''--remote-debugging-port=9222'',
      ''--user-data-dir='' @ tempUserDataDir,
      ''--disable-background-timer-throttling'',
      ''--disable-backgrounding-occluded-windows'',
      ''--disable-renderer-backgrounding'',
      ''--disable-features=TranslateUI'',
      ''--disable-ipc-flooding-protection'',
      ''--no-first-run'',
      ''--no-default-browser-check''] @
     (if headless then [''--headless=new'', ''--disable-gpu''] else [])"

definition already_running_text :: "target list option \<Rightarrow> string" where
  "already_running_text targets =
     ''Chrome debug instance is already running on port 9222'' @ newline @
     ''Active targets: '' @ show_target_count targets"

definition started_text :: "nat option \<Rightarrow> string \<Rightarrow> target list option \<Rightarrow> string" where
  "started_text p tempUserDataDir targets =
     ''Chrome debug instance started successfully!'' @ newline @
     ''PID: '' @ show_pid p @ newline @
     ''Debugging port: 9222'' @ newline @
     ''User data directory: '' @ tempUserDataDir @ newline @
     ''Active targets: '' @ show_target_count targets"

definition not_accessible_message :: string where
  "not_accessible_message =
     ''Failed to start Chrome: Chrome started but debugging interface is not accessible after 7.5 seconds''"

text \<open>
  The handler of start-chrome-debug. An uncaught error of the \<^verbatim>\<open>pkill\<close> child ends the
  host process before the browser is spawned. The listener of the browser child's
  \<^verbatim>\<open>error\<close> event throws; a throw in an event listener is outside the handler's
  \<^verbatim>\<open>try\<close>, nothing catches it, and the host process ends. The throw of line 152 is inside the \<^verbatim>\<open>try\<close>: the
  \<^verbatim>\<open>catch\<close> turns it into a text that starts with \<^verbatim>\<open>Failed to start Chrome: \<close>.
\<close>

definition start_chrome_debug ::
  "surroundings \<Rightarrow> string option \<Rightarrow> bool \<Rightarrow> server_state \<Rightarrow> tool_result \<times> server_state" where
  "start_chrome_debug env userDataDir headless w0 =
     (case isChromeAccessible env w0 of
        ((accessible, targets), w1) \<Rightarrow>
          if accessible then (Text (already_running_text targets), w1)
          else
            (case killChromeDebugProcesses env w1 of
               (Some uncaught, w2) \<Rightarrow> (HostCrash uncaught, w2)
             | (None, w2) \<Rightarrow>
                 let chromePath = getChromeExecutablePath (platform env);
                     tempUserDataDir =
                       (case userDataDir of
                          None \<Rightarrow> tmp_user_data_dir env
                        | Some d \<Rightarrow> if d = [] then tmp_user_data_dir env else d);
                     chromeArgs = chrome_args tempUserDataDir headless;
                     w3 = do_effect (Spawn chromePath chromeArgs)
                            (w2 \<lparr> chromeProcess := Some \<lparr> pid = spawn_pid env \<rparr> \<rparr>)
                 in (case spawn_error env of
                       Some msg \<Rightarrow> (HostCrash (''Failed to start Chrome: '' @ msg), w3)
                     | None \<Rightarrow>
                         (case waitForChromeAccessible env 15 500 w3 of
                            (isAccessible, w4) \<Rightarrow>
                              if isAccessible
                              then (case isChromeAccessible env w4 of
                                      ((accessible', targets'), w5) \<Rightarrow>
                                        (Text (started_text (spawn_pid env) tempUserDataDir targets'),
                                         w5))
                              else
                                let w5 = (case chromeProcess w4 of
                                            None \<Rightarrow> w4
                                          | Some p \<Rightarrow>
                                              (do_effect (KillProcess (pid p)) w4)
                                                \<lparr> chromeProcess := None \<rparr>)
                                in (Text (''Failed to start Chrome: '' @ not_accessible_message),
                                    w5)))))"

text \<open>The polling of a failed start, as a log: fifteen times a listing and a wait of 500 ms.\<close>

fun failed_polls :: "nat \<Rightarrow> effect list" where
  "failed_polls 0 = []"
| "failed_polls (Suc n) = ListTargets # Sleep 500 # failed_polls n"

definition unreachable :: "string + target list \<Rightarrow> bool" where
  "unreachable ans = (case ans of Inl err \<Rightarrow> True | Inr targets \<Rightarrow> targets = [])"

fun all_unreachable :: "surroundings \<Rightarrow> nat \<Rightarrow> nat \<Rightarrow> bool" where
  "all_unreachable env first 0 = True"
| "all_unreachable env first (Suc n) =
     (unreachable (list_answer env first) \<and> all_unreachable env (Suc first) n)"

fun slept_ms :: "effect list \<Rightarrow> nat" where
  "slept_ms [] = 0"
| "slept_ms (Sleep ms # es) = ms + slept_ms es"
| "slept_ms (e # es) = slept_ms es"

fun is_process_effect :: "effect \<Rightarrow> bool" where
  "is_process_effect Pkill = True"
| "is_process_effect (Spawn path args) = True"
| "is_process_effect (KillProcess p) = True"
| "is_process_effect e = False"

text \<open>Surroundings in which nothing fails and the endpoint gives the same answer to
  every listing, and a state in which nothing has happened yet.\<close>

definition steady_surroundings :: "(string + target list) \<Rightarrow> surroundings" where
  "steady_surroundings ans =
     \<lparr> list_answer = (\<lambda>n. ans), platform = ''linux'', tmp_user_data_dir = ''/tmp/chrome-debug-1'',
       pkill_error = None, spawn_pid = Some 4242, spawn_error = None, close_error = None,
       connect_error = None, page_enable_error = None, network_enable_error = None,
       response_body_answer = (\<lambda>rid. Inl ''No resource with given identifier found''),
       post_data_answer = (\<lambda>rid. Inl ''No post data available for the request'') \<rparr>"

definition initial_state :: server_state where
  "initial_state =
     \<lparr> chromeProcess = None, networkRequests = [], cdpClient = None, list_calls = 0,
       effects = [] \<rparr>"

definition page_target :: target where
  "page_target = \<lparr> target_type = ''page'', webSocketDebuggerUrl = ''ws://127.0.0.1:9222/devtools/page/1'' \<rparr>"

definition worker_target :: target where
  "worker_target = \<lparr> target_type = ''service_worker'',
     webSocketDebuggerUrl = ''ws://127.0.0.1:9222/devtools/page/0'' \<rparr>"

section \<open>Protocol session (connection handling of query-network-traffic and open-url)\<close>

definition not_running_text :: string where
  "not_running_text =
     ''Error: Chrome debug instance is not running. Please start Chrome with the '' @
     apostrophe @ ''start-chrome-debug'' @ apostrophe @ '' tool first.''"

definition no_page_targets_text :: string where
  "no_page_targets_text = ''Error: No page targets available in Chrome debug session.''"

text \<open>\<^verbatim>\<open>targets.find((target) => target.type === "page") || targets[0]\<close>;
  \<open>None\<close> is \<^verbatim>\<open>undefined\<close>, the first element of an empty list.\<close>

definition select_page_target :: "target list \<Rightarrow> target option" where
  "select_page_target targets =
     (case List.find (\<lambda>t. target_type t = ''page'') targets of
        Some t \<Rightarrow> Some t
      | None \<Rightarrow> (case targets of [] \<Rightarrow> None | t # rest \<Rightarrow> Some t))"

text \<open>\<^verbatim>\<open>CDP({ target: url })\<close>: a rejection, or a client whose socket is open (state 1)
  and that has no listener yet.\<close>

definition CDP_connect ::
  "surroundings \<Rightarrow> string \<Rightarrow> server_state \<Rightarrow> (string + cdp_client) \<times> server_state" where
  "CDP_connect env ws w =
     (case connect_error env of
        Some msg \<Rightarrow> (Inl msg, do_effect (Connect ws) w)
      | None \<Rightarrow>
          (Inr \<lparr> client_target = ws, readyState = Some 1, listeners = [] \<rparr>,
           do_effect (Connect ws) w))"

definition persistent_listeners :: "listener list" where
  "persistent_listeners = [PersistentRequestListener, PersistentResponseListener]"

definition query_error_text :: "string \<Rightarrow> string" where
  "query_error_text msg = ''Error querying network traffic: '' @ msg"

definition open_url_error_text :: "string \<Rightarrow> string" where
  "open_url_error_text msg = ''Error opening URL: '' @ msg"

text \<open>
  query-network-traffic, lines 193-258. The result \<open>Some r\<close> is an early return of the
  handler with \<open>r\<close>; \<open>None\<close> means that the handler goes on to filter the records. The
  connection is set up only under \<^verbatim>\<open>if (!cdpClient)\<close>.
\<close>

definition query_connect :: "surroundings \<Rightarrow> server_state \<Rightarrow> tool_result option \<times> server_state" where
  "query_connect env w0 =
     (case isChromeAccessible env w0 of
        ((accessible, status_targets), w1) \<Rightarrow>
          if \<not> accessible then (Some (Text not_running_text), w1)
          else
            (case cdpClient w1 of
               Some client \<Rightarrow> (None, w1)
             | None \<Rightarrow>
                 (case CDP_List env w1 of
                    (Inl msg, w2) \<Rightarrow> (Some (Text (query_error_text msg)), w2)
                  | (Inr targets, w2) \<Rightarrow>
                      (case select_page_target targets of
                         None \<Rightarrow> (Some (Text no_page_targets_text), w2)
                       | Some pageTarget \<Rightarrow>
                           (case CDP_connect env (webSocketDebuggerUrl pageTarget) w2 of
                              (Inl msg, w3) \<Rightarrow> (Some (Text (query_error_text msg)), w3)
                            | (Inr client, w3) \<Rightarrow>
                                let w4 = do_effect NetworkEnable (w3 \<lparr> cdpClient := Some client \<rparr>)
                                in (case network_enable_error env of
                                      Some msg \<Rightarrow> (Some (Text (query_error_text msg)), w4)
                                    | None \<Rightarrow>
                                        (None,
                                         w4 \<lparr> cdpClient :=
                                                Some (client \<lparr> listeners := persistent_listeners \<rparr>) \<rparr>)))))))"

text \<open>\<^verbatim>\<open>!cdpClient || cdpClient._ws?.readyState !== 1\<close>.\<close>

definition needs_connection :: "cdp_client option \<Rightarrow> bool" where
  "needs_connection handle =
     (case handle of None \<Rightarrow> True | Some client \<Rightarrow> readyState client \<noteq> Some 1)"

text \<open>
  open-url, lines 525-601. Here the target list is fetched on every call, and a handle
  whose socket is not open is closed (a failing close is ignored) and replaced.
\<close>

definition open_url_connect :: "surroundings \<Rightarrow> server_state \<Rightarrow> tool_result option \<times> server_state" where
  "open_url_connect env w0 =
     (case isChromeAccessible env w0 of
        ((accessible, status_targets), w1) \<Rightarrow>
          if \<not> accessible then (Some (Text not_running_text), w1)
          else
            (case CDP_List env w1 of
               (Inl msg, w2) \<Rightarrow> (Some (Text (open_url_error_text msg)), w2)
             | (Inr targets, w2) \<Rightarrow>
                 (case select_page_target targets of
                    None \<Rightarrow> (Some (Text no_page_targets_text), w2)
                  | Some pageTarget \<Rightarrow>
                      if needs_connection (cdpClient w2)
                      then
                        let w3 = (case cdpClient w2 of
                                    None \<Rightarrow> w2
                                  | Some stale \<Rightarrow>
                                      (do_effect (CloseClient (client_target stale)) w2)
                                        \<lparr> cdpClient := None \<rparr>)
                        in (case CDP_connect env (webSocketDebuggerUrl pageTarget) w3 of
                              (Inl msg, w4) \<Rightarrow> (Some (Text (open_url_error_text msg)), w4)
                            | (Inr client, w4) \<Rightarrow>
                                let w5 = do_effect PageEnable (w4 \<lparr> cdpClient := Some client \<rparr>)
                                in (case page_enable_error env of
                                      Some msg \<Rightarrow> (Some (Text (open_url_error_text msg)), w5)
                                    | None \<Rightarrow>
                                        let w6 = do_effect NetworkEnable w5
                                        in (case network_enable_error env of
                                              Some msg \<Rightarrow> (Some (Text (open_url_error_text msg)), w6)
                                            | None \<Rightarrow>
                                                (None,
                                                 w6 \<lparr> cdpClient :=
                                                        Some (client \<lparr> listeners := persistent_listeners \<rparr>) \<rparr>))))
                      else (None, w2))))"

text \<open>A handle whose socket has been closed (state 3), kept in the state.\<close>

definition stale_client :: cdp_client where
  "stale_client =
     \<lparr> client_target = ''ws://127.0.0.1:9222/devtools/page/0'', readyState = Some 3,
       listeners = persistent_listeners \<rparr>"

definition stale_state :: server_state where
  "stale_state = initial_state \<lparr> cdpClient := Some stale_client \<rparr>"

section \<open>Record detail (get-network-details, lines 371-513)\<close>

datatype response_body = Body string bool | BodyError string

text \<open>The \<^verbatim>\<open>details\<close> object. Its \<^verbatim>\<open>timestamp\<close> is the ISO text of a date; the
  formatter never prints it, and the model keeps the time value it is made from.\<close>

record details =
  d_requestId :: string
  d_url :: "string option"
  d_method :: "string option"
  d_time_value :: real
  d_requestHeaders :: "header_map option"
  d_postData :: "string option"
  d_response :: "response_payload option"
  d_responseBody :: response_body

definition no_connection_text :: string where
  "no_connection_text =
     ''Error: No active CDP connection. Please run '' @ apostrophe @ ''query-network-traffic'' @
     apostrophe @ '' first to establish connection.''"

definition truthy_string :: "string option \<Rightarrow> bool" where
  "truthy_string v = (case v of None \<Rightarrow> False | Some s \<Rightarrow> s \<noteq> [])"

text \<open>\<^verbatim>\<open>new Date(t).toISOString()\<close> throws a \<^verbatim>\<open>RangeError\<close> when the time value is
  outside the range of dates, 8.64e15 ms on either side of the epoch.\<close>

definition valid_time_value :: "real \<Rightarrow> bool" where
  "valid_time_value t = (\<bar>t\<bar> \<le> 8640000000000000)"

definition state_changing :: "string option \<Rightarrow> bool" where
  "state_changing m = (m = Some ''POST'' \<or> m = Some ''PUT'' \<or> m = Some ''PATCH'')"

definition body_marker :: string where
  "body_marker = ''Could not retrieve response body''"

text \<open>Lines 408-440: the two fetches, each in its own \<^verbatim>\<open>try\<close>.\<close>

definition fetch_response_body ::
  "surroundings \<Rightarrow> string \<Rightarrow> server_state \<Rightarrow> response_body \<times> server_state" where
  "fetch_response_body env rid w =
     (case response_body_answer env rid of
        Inl err \<Rightarrow> BodyError body_marker
      | Inr (body, base64Encoded) \<Rightarrow> Body body base64Encoded,
      do_effect (GetResponseBody rid) w)"

definition fetch_post_data ::
  "surroundings \<Rightarrow> net_record \<Rightarrow> string \<Rightarrow> server_state \<Rightarrow> string option \<times> server_state" where
  "fetch_post_data env request rid w =
     (if truthy_string (postData request) then (postData request, w)
      else if state_changing (method request)
      then (case post_data_answer env rid of Inl err \<Rightarrow> None | Inr pd \<Rightarrow> pd,
            do_effect (GetRequestPostData rid) w)
      else (None, w))"

definition format_headers :: "header_map \<Rightarrow> string" where
  "format_headers hs = concat (map (\<lambda>(k, v). k @ '': '' @ v @ newline) hs)"

definition code_fence :: string where
  "code_fence = ''```''"

text \<open>\<^verbatim>\<open>details.response?.status || "pending"\<close>: a missing status and the status 0 are
  both falsy.\<close>

definition show_status :: "response_payload option \<Rightarrow> string" where
  "show_status r =
     (case r of
        None \<Rightarrow> ''pending''
      | Some resp \<Rightarrow>
          (case rs_status resp of
             None \<Rightarrow> ''pending''
           | Some code \<Rightarrow> if code = 0 then ''pending'' else show_int code))"

definition nonempty_headers :: "header_map option \<Rightarrow> bool" where
  "nonempty_headers h = (case h of None \<Rightarrow> False | Some hs \<Rightarrow> hs \<noteq> [])"

definition response_headers :: "response_payload option \<Rightarrow> header_map option" where
  "response_headers r = (case r of None \<Rightarrow> None | Some resp \<Rightarrow> rs_headers resp)"

definition formatDetails :: "bool \<Rightarrow> details \<Rightarrow> string" where
  "formatDetails includeHeaders d =
     ''## '' @ js_to_string (d_method d) @ '' '' @ js_to_string (d_url d) @ newline @ newline @
     ''Status: '' @ show_status (d_response d) @ newline @ newline @
     (if includeHeaders \<and> nonempty_headers (d_requestHeaders d)
      then ''### Request Headers:'' @ newline @
           format_headers (case d_requestHeaders d of None \<Rightarrow> [] | Some hs \<Rightarrow> hs) @ newline
      else []) @
     (if truthy_string (d_postData d)
      then ''### Request Body:'' @ newline @ code_fence @ newline @
           js_to_string (d_postData d) @ newline @ code_fence @ newline @ newline
      else []) @
     (if includeHeaders \<and> nonempty_headers (response_headers (d_response d))
      then ''### Response Headers:'' @ newline @
           format_headers (case response_headers (d_response d) of None \<Rightarrow> [] | Some hs \<Rightarrow> hs) @
           newline
      else []) @
     (case d_responseBody d of
        Body body base64Encoded \<Rightarrow>
          if body \<noteq> []
          then ''### Response Body:'' @ newline @ code_fence @ newline @ body @ newline @
               code_fence @ newline
          else []
      | BodyError err \<Rightarrow> [])"

definition make_details ::
  "string \<Rightarrow> net_record \<Rightarrow> string option \<Rightarrow> response_body \<Rightarrow> details" where
  "make_details rid request post body =
     \<lparr> d_requestId = rid, d_url = url request, d_method = method request,
       d_time_value = timestamp_or_zero request, d_requestHeaders = headers request,
       d_postData = post, d_response = response request, d_responseBody = body \<rparr>"

definition details_error_text :: "string \<Rightarrow> string" where
  "details_error_text msg = ''Error getting network details: '' @ msg"

definition get_network_details ::
  "surroundings \<Rightarrow> string \<Rightarrow> bool \<Rightarrow> server_state \<Rightarrow> tool_result \<times> server_state" where
  "get_network_details env rid includeHeaders w0 =
     (case isChromeAccessible env w0 of
        ((accessible, status_targets), w1) \<Rightarrow>
          if \<not> accessible then (Text not_running_text, w1)
          else
            (case cdpClient w1 of
               None \<Rightarrow> (Text no_connection_text, w1)
             | Some client \<Rightarrow>
                 (case map_get (networkRequests w1) rid of
                    None \<Rightarrow> (Text (''Error: No request found with ID: '' @ rid), w1)
                  | Some request \<Rightarrow>
                      (case fetch_response_body env rid w1 of
                         (responseBody, w2) \<Rightarrow>
                           (case fetch_post_data env request rid w2 of
                              (post, w3) \<Rightarrow>
                                if \<not> valid_time_value (timestamp_or_zero request)
                                then (Text (details_error_text ''Invalid time value''), w3)
                                else (Text (formatDetails includeHeaders
                                              (make_details rid request post responseBody)),
                                      w3))))))"

text \<open>A stored POST request without a cached body whose response has arrived, a state
  that holds it together with an open connection, and surroundings in which the body of
  the response cannot be fetched while the post data can.\<close>

definition detail_response :: response_payload where
  "detail_response =
     \<lparr> rs_url = Some ''http://a/api'', rs_status = Some 500,
       rs_statusText = Some ''Internal Server Error'',
       rs_headers = Some [(''Content-Type'', ''text/plain'')],
       rs_mimeType = Some ''text/plain'' \<rparr>"

definition post_record :: net_record where
  "post_record =
     \<lparr> requestId = ''r7'', url = Some ''http://a/api'', method = Some ''POST'',
       headers = Some [(''Accept'', ''*/*'')], postData = None, timestamp = Some 12.5,
       rec_type = Some ''request'', response = Some detail_response,
       responseTimestamp = Some 13 \<rparr>"

definition attached_state :: server_state where
  "attached_state =
     initial_state \<lparr> networkRequests := [(''r7'', post_record)],
                     cdpClient := Some \<lparr> client_target = ''ws://127.0.0.1:9222/devtools/page/1'',
                                         readyState = Some 1, listeners = persistent_listeners \<rparr> \<rparr>"

definition body_failing_surroundings :: surroundings where
  "body_failing_surroundings =
     (steady_surroundings (Inr [page_target])) \<lparr> post_data_answer := (\<lambda>rid. Inr (Some ''a=1'')) \<rparr>"

definition body_failing_report :: string where
  "body_failing_report =
     ''## POST http://a/api'' @ newline @ newline @
     ''Status: 500'' @ newline @ newline @
     ''### Request Headers:'' @ newline @
     ''Accept: */*'' @ newline @ newline @
     ''### Request Body:'' @ newline @ code_fence @ newline @
     ''a=1'' @ newline @ code_fence @ newline @ newline @
     ''### Response Headers:'' @ newline @
     ''Content-Type: text/plain'' @ newline @ newline"

section \<open>Quiescence detector (open-url, lines 603-660)\<close>

text \<open>
  Time is what \<^verbatim>\<open>Date.now()\<close> reads, in milliseconds. A timeline gives the readings the
  code takes: the one that initialises \<^verbatim>\<open>lastNetworkActivity\<close> (line 605), the one in
  the \<open>k\<close>-th run of the interval callback, and those of the temporary request and
  response handlers that run before the \<open>k\<close>-th callback and after the one before it, in
  order (for \<open>k = 0\<close>: since the handlers were registered, the navigation included).
  The scheduler is cooperative, so no handler runs inside a callback.
\<close>

record timeline =
  started_at :: int
  tick_time :: "nat \<Rightarrow> int"
  events_before :: "nat \<Rightarrow> int list"

text \<open>Each handler run assigns \<^verbatim>\<open>lastNetworkActivity = Date.now()\<close>.\<close>

definition stamp_all :: "int list \<Rightarrow> int \<Rightarrow> int" where
  "stamp_all readings lastNetworkActivity = foldl (\<lambda>previous t. t) lastNetworkActivity readings"

text \<open>
  \<^verbatim>\<open>waitForNetworkSettle\<close>: the interval callback runs until it resolves the promise,
  and nothing bounds the number of runs. The first argument bounds it in the model:
  \<open>None\<close> says that the promise is still pending after that many callbacks. The result
  \<open>Some k\<close> says that the \<open>k\<close>-th callback resolved it.
\<close>

fun waitForNetworkSettle :: "nat \<Rightarrow> timeline \<Rightarrow> nat \<Rightarrow> int \<Rightarrow> nat option" where
  "waitForNetworkSettle 0 tline k lastNetworkActivity = None"
| "waitForNetworkSettle (Suc fuel) tline k lastNetworkActivity =
     (let latest = stamp_all (events_before tline k) lastNetworkActivity;
          timeSinceLastActivity = tick_time tline k - latest
      in if timeSinceLastActivity \<ge> 1000 then Some k
         else waitForNetworkSettle fuel tline (Suc k) latest)"

definition await_settle :: "nat \<Rightarrow> timeline \<Rightarrow> nat option" where
  "await_settle fuel tline = waitForNetworkSettle fuel tline 0 (started_at tline)"

text \<open>The value of \<^verbatim>\<open>lastNetworkActivity\<close> when the \<open>k\<close>-th callback runs: the reading of
  the most recent handler run, or the initial one if no handler has run.\<close>

fun last_activity :: "timeline \<Rightarrow> nat \<Rightarrow> int" where
  "last_activity tline 0 = stamp_all (events_before tline 0) (started_at tline)"
| "last_activity tline (Suc k) = stamp_all (events_before tline (Suc k)) (last_activity tline k)"

text \<open>
  Three timelines with an ideal timer (a callback every 100 ms): no event at all, the
  navigation taking 5 ms; two events, the later one 380 ms after the start; and a page
  that keeps polling, one event 50 ms before every callback.
\<close>

definition quiet_timeline :: timeline where
  "quiet_timeline =
     \<lparr> started_at = 0, tick_time = (\<lambda>k. 5 + 100 * (int k + 1)), events_before = (\<lambda>k. []) \<rparr>"

definition short_burst_timeline :: timeline where
  "short_burst_timeline =
     \<lparr> started_at = 0, tick_time = (\<lambda>k. 5 + 100 * (int k + 1)),
       events_before = (\<lambda>k. if k = 0 then [30] else if k = 3 then [380] else []) \<rparr>"

definition busy_timeline :: timeline where
  "busy_timeline =
     \<lparr> started_at = 0, tick_time = (\<lambda>k. 100 * (int k + 1)),
       events_before = (\<lambda>k. [100 * int k + 50]) \<rparr>"

section \<open>Store lemmas\<close>

lemma map_get_map_set_same: "map_get (map_set s k v) k = Some v"
  by (induction s) auto




lemma ingest_all_snoc: "ingest_all s (evs @ [e]) = ingest (ingest_all s evs) e"
  by (simp add: ingest_all_def)

lemma onResponseReceived_get:
  "map_get (onResponseReceived rid resp ts s) rid =
     Some ((case map_get s rid of None \<Rightarrow> empty_object rid | Some e \<Rightarrow> e)
            \<lparr> requestId := rid, response := Some (stored_response resp), responseTimestamp := ts \<rparr>)"
  by (simp add: onResponseReceived_def Let_def map_get_map_set_same)

lemma stored_response_id: "stored_response resp = resp"
  by (simp add: stored_response_def)



lemma onRequestSent_get:
  "map_get (onRequestSent rid rq ts s) rid =
     Some \<lparr> requestId = rid, url = rq_url rq, method = rq_method rq, headers = rq_headers rq,
            postData = rq_postData rq, timestamp = ts, rec_type = Some ''request'',
            response = None, responseTimestamp = None \<rparr>"
  by (simp add: onRequestSent_def map_get_map_set_same)

lemma responses_after_record:
  "map_get s rid = Some r0 \<Longrightarrow> rs \<noteq> [] \<Longrightarrow>
   map_get (ingest_all s (response_events rid rs)) rid =
     Some (r0 \<lparr> requestId := rid, response := Some (stored_response (fst (last rs))),
                 responseTimestamp := snd (last rs) \<rparr>)"
proof (induction rs arbitrary: s r0)
  case Nil
  then show ?case by simp
next
  case (Cons p rs)
  obtain resp ts where p: "p = (resp, ts)" by (cases p)
  let ?s1 = "onResponseReceived rid resp ts s"
  let ?r1 = "r0 \<lparr> requestId := rid, response := Some (stored_response resp),
                   responseTimestamp := ts \<rparr>"
  have get1: "map_get ?s1 rid = Some ?r1"
    using Cons.prems(1) by (simp add: onResponseReceived_get)
  show ?case
  proof (cases "rs = []")
    case True
    with get1 p show ?thesis by (simp add: ingest_all_def)
  next
    case False
    from Cons.IH [OF get1 False] p False show ?thesis
      by (simp add: ingest_all_def)
  qed
qed

text \<open>
  Claim C1, as amended. A request event followed by one or more response events for the
  same id leaves a record whose request fields are the request event's and whose response
  fields are those of the last response event. A request event that arrives after
  response events replaces the record: the stored record then holds the request fields
  only, with no response. (The merge is not independent of the order of arrival.)
\<close>

theorem request_then_responses_merge:
  "(rs \<noteq> [] \<longrightarrow>
     map_get (ingest_all s (RequestWillBeSent rid rq ts # response_events rid rs)) rid =
       Some \<lparr> requestId = rid, url = rq_url rq, method = rq_method rq, headers = rq_headers rq,
              postData = rq_postData rq, timestamp = ts, rec_type = Some ''request'',
              response = Some (stored_response (fst (last rs))),
              responseTimestamp = snd (last rs) \<rparr>) \<and>
   map_get (ingest_all s (response_events rid rs @ [RequestWillBeSent rid rq ts])) rid =
       Some \<lparr> requestId = rid, url = rq_url rq, method = rq_method rq, headers = rq_headers rq,
              postData = rq_postData rq, timestamp = ts, rec_type = Some ''request'',
              response = None, responseTimestamp = None \<rparr>"
proof (intro conjI impI)
  assume ne: "rs \<noteq> []"
  have "ingest_all s (RequestWillBeSent rid rq ts # response_events rid rs) =
        ingest_all (onRequestSent rid rq ts s) (response_events rid rs)"
    by (simp add: ingest_all_def)
  then show "map_get (ingest_all s (RequestWillBeSent rid rq ts # response_events rid rs)) rid =
       Some \<lparr> requestId = rid, url = rq_url rq, method = rq_method rq, headers = rq_headers rq,
              postData = rq_postData rq, timestamp = ts, rec_type = Some ''request'',
              response = Some (stored_response (fst (last rs))),
              responseTimestamp = snd (last rs) \<rparr>"
    using responses_after_record [OF onRequestSent_get ne, of rid rq ts s] by simp
next
  show "map_get (ingest_all s (response_events rid rs @ [RequestWillBeSent rid rq ts])) rid =
       Some \<lparr> requestId = rid, url = rq_url rq, method = rq_method rq, headers = rq_headers rq,
              postData = rq_postData rq, timestamp = ts, rec_type = Some ''request'',
              response = None, responseTimestamp = None \<rparr>"
    by (simp add: ingest_all_snoc onRequestSent_get)
qed

theorem request_then_responses_merge_witness:
  "map_get (ingest_all [] [RequestWillBeSent ''r1'' example_request (Some 1),
       ResponseReceived ''r1'' example_response (Some 2)]) ''r1'' =
     Some \<lparr> requestId = ''r1'', url = Some ''http://a/x'', method = Some ''GET'', headers = None,
            postData = None, timestamp = Some 1, rec_type = Some ''request'',
            response = Some example_response, responseTimestamp = Some 2 \<rparr>"
  using request_then_responses_merge [of "[(example_response, Some 2)]" "[]" "''r1''"
      example_request "Some 1"]
  by (simp add: example_request_def example_response_def stored_response_def)

text \<open>
  The two orders of arrival of one request event and one response event give different
  records: the response that arrived first is gone after the request event.
\<close>

theorem order_independent_merge_counterexample:
  "map_get (ingest_all [] [ResponseReceived ''r1'' example_response (Some 2),
       RequestWillBeSent ''r1'' example_request (Some 1)]) ''r1'' \<noteq>
   map_get (ingest_all [] [RequestWillBeSent ''r1'' example_request (Some 1),
       ResponseReceived ''r1'' example_response (Some 2)]) ''r1'' \<and>
   map_option response (map_get (ingest_all [] [ResponseReceived ''r1'' example_response (Some 2),
       RequestWillBeSent ''r1'' example_request (Some 1)]) ''r1'') = Some None"
  by (simp add: ingest_all_def onRequestSent_def onResponseReceived_def empty_object_def)

section \<open>Query lemmas\<close>




lemma length_insert_sorted: "length (insert_sorted cmp x ys) = Suc (length ys)"
  by (induction ys) auto

lemma length_array_sort: "length (array_sort cmp xs) = length xs"
  unfolding array_sort_def by (induction xs) (auto simp: length_insert_sorted)














section \<open>Regular expression lemmas\<close>

lemma letters_disjoint: "set upper_letters \<inter> set lower_letters = {}"
  by (simp add: lower_letters_def upper_letters_def)

lemma letters_length: "length lower_letters = length upper_letters"
  by (simp add: lower_letters_def upper_letters_def)

lemma to_upper_char_cases:
  "to_upper_char c = c \<or> (c \<in> set lower_letters \<and> to_upper_char c \<in> set upper_letters)"
proof (cases "map_of (zip lower_letters upper_letters) c")
  case None
  then show ?thesis by (simp add: to_upper_char_def)
next
  case (Some u)
  then have "(c, u) \<in> set (zip lower_letters upper_letters)" by (rule map_of_SomeD)
  then have "c \<in> set lower_letters" "u \<in> set upper_letters"
    by (auto dest: set_zip_leftD set_zip_rightD)
  moreover have "to_upper_char c = u"
    using Some by (simp add: to_upper_char_def)
  ultimately show ?thesis by simp
qed

lemma to_lower_char_cases:
  "to_lower_char c = c \<or> (c \<in> set upper_letters \<and> to_lower_char c \<in> set lower_letters)"
proof (cases "map_of (zip upper_letters lower_letters) c")
  case None
  then show ?thesis by (simp add: to_lower_char_def)
next
  case (Some l)
  then have "(c, l) \<in> set (zip upper_letters lower_letters)" by (rule map_of_SomeD)
  then have "c \<in> set upper_letters" "l \<in> set lower_letters"
    by (auto dest: set_zip_leftD set_zip_rightD)
  moreover have "to_lower_char c = l"
    using Some by (simp add: to_lower_char_def)
  ultimately show ?thesis by simp
qed

lemma to_upper_char_fixed: "x \<notin> set lower_letters \<Longrightarrow> to_upper_char x = x"
proof -
  assume "x \<notin> set lower_letters"
  then have "map_of (zip lower_letters upper_letters) x = None"
    using letters_length by (simp add: map_of_zip_is_None)
  then show ?thesis by (simp add: to_upper_char_def)
qed

lemma to_upper_char_idem: "to_upper_char (to_upper_char c) = to_upper_char c"
  using to_upper_char_cases [of c] letters_disjoint to_upper_char_fixed [of "to_upper_char c"]
  by auto

lemma to_upper_lower_letter:
  "c \<in> set upper_letters \<Longrightarrow> to_upper_char (to_lower_char c) = c"
proof -
  assume "c \<in> set upper_letters"
  then have "c \<in> set ''ABCDEFGHIJKLMNOPQRSTUVWXYZ''" by (simp only: upper_letters_def)
  then show ?thesis
    by (elim set_ConsD [elim_format] disjE)
      (simp_all add: upper_letters_def lower_letters_def to_upper_char_def to_lower_char_def)
qed

lemma to_upper_lower: "to_upper_char (to_lower_char c) = to_upper_char c"
proof (cases "c \<in> set upper_letters")
  case True
  then have "c \<notin> set lower_letters" using letters_disjoint by auto
  then show ?thesis using True by (simp add: to_upper_lower_letter to_upper_char_fixed)
next
  case False
  then show ?thesis using to_lower_char_cases [of c] by auto
qed

lemma line_terminators_no_letters:
  "CHR 0x0A \<notin> set lower_letters" "CHR 0x0D \<notin> set lower_letters"
  "CHR 0x0A \<notin> set upper_letters" "CHR 0x0D \<notin> set upper_letters"
  by (simp_all add: lower_letters_def upper_letters_def)

lemma to_upper_char_line_terminator:
  "(to_upper_char c \<noteq> CHR 0x0A \<and> to_upper_char c \<noteq> CHR 0x0D) = (c \<noteq> CHR 0x0A \<and> c \<noteq> CHR 0x0D)"
  using to_upper_char_cases [of c] line_terminators_no_letters by auto

lemma to_lower_char_line_terminator:
  "(to_lower_char c \<noteq> CHR 0x0A \<and> to_lower_char c \<noteq> CHR 0x0D) = (c \<noteq> CHR 0x0A \<and> c \<noteq> CHR 0x0D)"
  using to_lower_char_cases [of c] line_terminators_no_letters by auto

lemma atom_matches_upper: "atom_matches a (to_upper_char c) = atom_matches a c"
  by (cases a) (simp_all add: to_upper_char_idem to_upper_char_line_terminator)

lemma atom_matches_lower: "atom_matches a (to_lower_char c) = atom_matches a c"
  by (cases a) (simp_all add: to_upper_lower to_lower_char_line_terminator)

lemma match_here_case_change:
  "\<forall>a c. atom_matches a (g c) = atom_matches a c \<Longrightarrow> match_here p (map g s) = match_here p s"
  by (induction p s rule: match_here.induct) auto

lemma regexp_test_case_change:
  "\<forall>a c. atom_matches a (g c) = atom_matches a c \<Longrightarrow> regexp_test p (map g s) = regexp_test p s"
proof (induction s)
  case Nil
  then show ?case by simp
next
  case (Cons c s)
  then show ?case
    using match_here_case_change [of g p "c # s"] by simp
qed

lemma match_here_append: "match_here p s \<Longrightarrow> match_here p (s @ post)"
proof (induction p s rule: match_here.induct)
  case (4 a ts)
  then show ?case by (cases post) auto
next
  case (8 a ts)
  then show ?case by (cases post) auto
qed auto

lemma regexp_test_append: "regexp_test p s \<Longrightarrow> regexp_test p (s @ post)"
proof (induction s)
  case Nil
  then show ?case
    using match_here_append [of p "[]" post] by (cases post) auto
next
  case (Cons c s)
  then show ?case
    using match_here_append [of p "c # s" post] by auto
qed

lemma regexp_test_prepend: "regexp_test p s \<Longrightarrow> regexp_test p (pre @ s)"
  by (induction pre) simp_all

lemma match_here_star: "match_here [Star a] s"
  by (cases s) auto

lemma regexp_test_star: "regexp_test [Star a] s"
  by (cases s) (auto simp: match_here_star)

subsection \<open>Changing the case of the pattern\<close>

lemma match_here_recase:
  "\<forall>a c. atom_matches (recase_atom g a) c = atom_matches a c \<Longrightarrow>
   match_here (map (recase_term g) p) s = match_here p s"
  by (induction p s rule: match_here.induct) auto

lemma regexp_test_recase:
  "\<forall>a c. atom_matches (recase_atom g a) c = atom_matches a c \<Longrightarrow>
   regexp_test (map (recase_term g) p) s = regexp_test p s"
  by (induction s) (simp_all add: match_here_recase)

lemma flush_recase:
  "flush (map (recase_term g) acc) (recase_state g st) = map (recase_term g) (flush acc st)"
  by (cases st) (simp_all add: flush_def)

lemma recase_state_Escaping: "(recase_state g st = Escaping) = (st = Escaping)"
  by (cases st) simp_all

lemma escapable_subsets:
  "set quantifier_chars \<subseteq> set escapable_chars"
  "set other_syntax_chars \<subseteq> set escapable_chars"
  "CHR 0x5C \<in> set escapable_chars" "CHR ''.'' \<in> set escapable_chars"
  "CHR ''?'' \<in> set escapable_chars"
  by (auto simp: escapable_chars_def syntax_chars_def quantifier_chars_def)

lemma read_pattern_recase:
  assumes keep: "\<forall>c. c \<in> set escapable_chars \<longrightarrow> g c = c"
    and origin: "\<forall>c. g c \<in> set escapable_chars \<longrightarrow> c \<in> set escapable_chars"
  shows "read_pattern (map (recase_term g) acc) (recase_state g st) (map g cs) =
     map_option (map_sum id (map (recase_term g))) (read_pattern acc st cs)"
proof (induction cs arbitrary: acc st)
  case Nil
  show ?case by (simp add: recase_state_Escaping flush_recase)
next
  case (Cons c cs)
  have same: "(g c = x) = (c = x)" if "x \<in> set escapable_chars" for x
    using that keep origin by metis
  have mem: "(g c \<in> set S) = (c \<in> set S)" if "set S \<subseteq> set escapable_chars" for S
    using that keep origin by (metis subsetD)
  have g_bs: "(g c = CHR 0x5C) = (c = CHR 0x5C)" and g_dot: "(g c = CHR ''.'') = (c = CHR ''.'')"
    and g_qm: "(g c = CHR ''?'') = (c = CHR ''?'')"
    using same escapable_subsets by blast+
  have g_q: "(g c \<in> set quantifier_chars) = (c \<in> set quantifier_chars)"
    and g_o: "(g c \<in> set other_syntax_chars) = (c \<in> set other_syntax_chars)"
    and g_e: "(g c \<in> set escapable_chars) = (c \<in> set escapable_chars)"
    using mem escapable_subsets by blast+
  have g_atom: "atom_of (g c) = recase_atom g (atom_of c)"
    by (simp add: atom_of_def g_dot)
  show ?case
  proof (cases "st = Escaping")
    case True
    show ?thesis
    proof (cases "c \<in> set escapable_chars")
      case False
      with True g_e show ?thesis by simp
    next
      case esc: True
      with keep have "g c = c" by blast
      with True esc Cons.IH [of acc "Pending (Lit c)"] show ?thesis by simp
    qed
  next
    case False
    then have ne: "recase_state g st \<noteq> Escaping" by (simp add: recase_state_Escaping)
    consider (bs) "c = CHR 0x5C" | (quant) "c \<noteq> CHR 0x5C" "c \<in> set quantifier_chars"
      | (other) "c \<noteq> CHR 0x5C" "c \<notin> set quantifier_chars" "c \<in> set other_syntax_chars"
      | (plain) "c \<noteq> CHR 0x5C" "c \<notin> set quantifier_chars" "c \<notin> set other_syntax_chars"
      by blast
    then show ?thesis
    proof cases
      case bs
      then have "g c = c" using keep escapable_subsets by blast
      with bs False ne Cons.IH [of "flush acc st" Escaping] show ?thesis
        by (simp add: flush_recase)
    next
      case quant
      then have gc: "g c = c" using keep escapable_subsets by blast
      show ?thesis
      proof (cases st)
        case (Pending a)
        have "recase_term g (quantify c a) = quantify c (recase_atom g a)"
          by (simp add: quantify_def)
        with Pending quant gc Cons.IH [of "acc @ [quantify c a]" Quantified] show ?thesis
          by simp
      next
        case Quantified
        with quant gc Cons.IH [of acc Start] show ?thesis by simp
      next
        case Start
        with quant gc show ?thesis by simp
      next
        case Escaping
        with False show ?thesis by simp
      qed
    next
      case other
      with False ne g_bs g_q g_o show ?thesis by simp
    next
      case plain
      with False ne g_bs g_q g_o g_atom Cons.IH [of "flush acc st" "Pending (atom_of c)"]
      show ?thesis by (simp add: flush_recase)
    qed
  qed
qed

lemma fragment_pattern_recase:
  assumes "\<forall>c. c \<in> set escapable_chars \<longrightarrow> g c = c"
    and "\<forall>c. g c \<in> set escapable_chars \<longrightarrow> c \<in> set escapable_chars"
  shows "fragment_pattern (map g source) =
     map_option (map_sum id (map (recase_term g))) (fragment_pattern source)"
  using read_pattern_recase [OF assms, of "[]" Start source] by (simp add: fragment_pattern_def)

lemma escapable_no_letters:
  "set escapable_chars \<inter> set lower_letters = {}" "set escapable_chars \<inter> set upper_letters = {}"
  by (simp_all add: escapable_chars_def syntax_chars_def quantifier_chars_def
      other_syntax_chars_def lower_letters_def upper_letters_def)

lemma to_lower_char_fixed: "x \<notin> set upper_letters \<Longrightarrow> to_lower_char x = x"
proof -
  assume "x \<notin> set upper_letters"
  then have "map_of (zip upper_letters lower_letters) x = None"
    using letters_length by (simp add: map_of_zip_is_None)
  then show ?thesis by (simp add: to_lower_char_def)
qed

lemma to_upper_char_escapable:
  "\<forall>c. c \<in> set escapable_chars \<longrightarrow> to_upper_char c = c"
  "\<forall>c. to_upper_char c \<in> set escapable_chars \<longrightarrow> c \<in> set escapable_chars"
  using escapable_no_letters to_upper_char_fixed to_upper_char_cases by (blast, metis disjoint_iff)

lemma to_lower_char_escapable:
  "\<forall>c. c \<in> set escapable_chars \<longrightarrow> to_lower_char c = c"
  "\<forall>c. to_lower_char c \<in> set escapable_chars \<longrightarrow> c \<in> set escapable_chars"
  using escapable_no_letters to_lower_char_fixed to_lower_char_cases by (blast, metis disjoint_iff)

lemma recase_upper_matches:
  "\<forall>a c. atom_matches (recase_atom to_upper_char a) c = atom_matches a c"
proof (intro allI)
  fix a c
  show "atom_matches (recase_atom to_upper_char a) c = atom_matches a c"
    by (cases a) (simp_all add: to_upper_char_idem)
qed

lemma recase_lower_matches:
  "\<forall>a c. atom_matches (recase_atom to_lower_char a) c = atom_matches a c"
proof (intro allI)
  fix a c
  show "atom_matches (recase_atom to_lower_char a) c = atom_matches a c"
    by (cases a) (simp_all add: to_upper_lower)
qed

lemma replace_stars_map:
  assumes "\<forall>c. c \<in> set escapable_chars \<longrightarrow> g c = c"
    and "\<forall>c. g c \<in> set escapable_chars \<longrightarrow> c \<in> set escapable_chars"
  shows "replace_stars (map g f) = map g (replace_stars f)"
proof -
  have star: "CHR ''*'' \<in> set escapable_chars" and dot: "CHR ''.'' \<in> set escapable_chars"
    by (simp_all add: escapable_chars_def syntax_chars_def quantifier_chars_def)
  have fixed: "g (CHR ''*'') = CHR ''*''" "g (CHR ''.'') = CHR ''.''"
    using assms(1) star dot by blast+
  have same: "(g c = CHR ''*'') = (c = CHR ''*'')" for c
    using assms star by metis
  show ?thesis
    by (induction f) (simp_all add: replace_stars_def same fixed)
qed

lemmas replace_stars_upper = replace_stars_map [OF to_upper_char_escapable]
lemmas replace_stars_lower = replace_stars_map [OF to_lower_char_escapable]

subsection \<open>The filter on an engine that follows ECMAScript on the fragment\<close>

lemma fragment_only_engine_conforms: "ecmascript_on_fragment fragment_only_engine"
  by (simp add: ecmascript_on_fragment_def fragment_only_engine_def)

lemma conforming_engine:
  "ecmascript_on_fragment rx \<Longrightarrow> fragment_pattern source = Some parsed \<Longrightarrow>
   rx source ''i'' = answer_on_fragment parsed"
  by (simp add: ecmascript_on_fragment_def)

lemma filter_by_url_fragment:
  assumes "ecmascript_on_fragment rx" and "f \<noteq> []"
    and "fragment_pattern (replace_stars f) = Some (Inr ts)"
  shows "filter_by_url rx (Some f) reqs =
     Inr (filter (\<lambda>r. regexp_test ts (js_to_string (url r))) reqs)"
  using conforming_engine [OF assms(1,3)] assms(2)
  by (simp add: filter_by_url_def answer_on_fragment_def)

lemma filter_by_url_syntax_error:
  assumes "ecmascript_on_fragment rx" and "f \<noteq> []"
    and "fragment_pattern (replace_stars f) = Some (Inl e)"
  shows "filter_by_url rx (Some f) reqs = Inl e"
  using conforming_engine [OF assms(1,3)] assms(2)
  by (simp add: filter_by_url_def answer_on_fragment_def)

lemma keeps_url_fragment:
  assumes "ecmascript_on_fragment rx" and "f \<noteq> []"
    and "fragment_pattern (replace_stars f) = Some (Inr ts)"
  shows "keeps_url rx f u = regexp_test ts (js_to_string u)"
    and "drops_url rx f u = (\<not> regexp_test ts (js_to_string u))"
  by (simp_all add: keeps_url_def drops_url_def filter_by_url_fragment [OF assms] bare_record_def)

lemma filter_by_url_recase:
  assumes conf: "ecmascript_on_fragment rx"
    and frag: "fragment_pattern (replace_stars f) = Some parsed"
    and keep: "\<forall>c. c \<in> set escapable_chars \<longrightarrow> g c = c"
    and origin: "\<forall>c. g c \<in> set escapable_chars \<longrightarrow> c \<in> set escapable_chars"
    and same: "\<forall>a c. atom_matches (recase_atom g a) c = atom_matches a c"
  shows "filter_by_url rx (Some (map g f)) reqs = filter_by_url rx (Some f) reqs"
proof -
  have src: "replace_stars (map g f) = map g (replace_stars f)"
    using keep origin by (rule replace_stars_map)
  have "fragment_pattern (map g (replace_stars f)) =
      Some (map_sum id (map (recase_term g)) parsed)"
    using fragment_pattern_recase [OF keep origin, of "replace_stars f"] frag by simp
  then have there: "rx (replace_stars (map g f)) ''i'' =
      answer_on_fragment (map_sum id (map (recase_term g)) parsed)"
    using conf src by (simp add: conforming_engine)
  have here: "rx (replace_stars f) ''i'' = answer_on_fragment parsed"
    using conf frag by (rule conforming_engine)
  have "answer_on_fragment (map_sum id (map (recase_term g)) parsed) = answer_on_fragment parsed"
  proof (cases parsed)
    case (Inl e)
    then show ?thesis by (simp add: answer_on_fragment_def)
  next
    case (Inr ts)
    have "regexp_test (map (recase_term g) ts) = regexp_test ts"
      using regexp_test_recase [OF same] by blast
    with Inr show ?thesis by (simp add: answer_on_fragment_def)
  qed
  with there here have "rx (replace_stars (map g f)) ''i'' = rx (replace_stars f) ''i''" by simp
  then show ?thesis by (simp add: filter_by_url_def)
qed

subsection \<open>Filters without syntax characters\<close>

lemma read_pattern_plain:
  "plain_text f \<Longrightarrow> st \<noteq> Escaping \<Longrightarrow>
   read_pattern acc st f = Some (Inr (flush acc st @ map (\<lambda>c. Once (Lit c)) f))"
proof (induction f arbitrary: acc st)
  case Nil
  then show ?case by simp
next
  case (Cons c f)
  from Cons.prems(1) have c: "c \<notin> set syntax_chars" and rest: "plain_text f"
    by (simp_all add: plain_text_def)
  from c have no: "c \<noteq> CHR 0x5C" "c \<notin> set quantifier_chars" "c \<notin> set other_syntax_chars"
    "c \<noteq> CHR ''.''"
    by (auto simp: syntax_chars_def)
  have "read_pattern acc st (c # f) = read_pattern (flush acc st) (Pending (Lit c)) f"
    using Cons.prems(2) no by (simp add: atom_of_def)
  also have "\<dots> = Some (Inr (flush (flush acc st) (Pending (Lit c)) @ map (\<lambda>c. Once (Lit c)) f))"
    using rest by (intro Cons.IH) simp_all
  finally show ?case by (simp add: flush_def)
qed

lemma fragment_pattern_plain:
  "plain_text f \<Longrightarrow> fragment_pattern f = Some (Inr (map (\<lambda>c. Once (Lit c)) f))"
  using read_pattern_plain [of f Start "[]"] by (simp add: fragment_pattern_def flush_def)

lemma replace_stars_no_star: "CHR ''*'' \<notin> set f \<Longrightarrow> replace_stars f = f"
  by (induction f) (auto simp: replace_stars_def)

lemma plain_text_no_star: "plain_text f \<Longrightarrow> CHR ''*'' \<notin> set f"
  by (induction f) (auto simp: plain_text_def syntax_chars_def quantifier_chars_def)

lemma match_here_literal:
  "match_here (map (\<lambda>c. Once (Lit c)) f) s =
     (take (length f) (map to_upper_char s) = map to_upper_char f)"
proof (induction f arbitrary: s)
  case Nil
  show ?case by simp
next
  case (Cons c f)
  show ?case by (cases s) (auto simp: Cons.IH)
qed

lemma regexp_test_literal:
  "regexp_test (map (\<lambda>c. Once (Lit c)) f) s = contains_ignoring_case f s"
  unfolding contains_ignoring_case_def
  by (induction s) (simp_all add: match_here_literal)

lemma contains_literal_iff: "contains_literal f u = (\<exists>pre post. u = pre @ f @ post)"
proof (induction u)
  case Nil
  show ?case by auto
next
  case (Cons c u)
  have first: "(take (length f) (c # u) = f) = (\<exists>post. c # u = f @ post)"
    by (metis append_eq_conv_conj append_take_drop_id)
  have "(\<exists>pre post. c # u = pre @ f @ post) =
      ((\<exists>post. c # u = f @ post) \<or> (\<exists>pre post. u = pre @ f @ post))"
  proof
    assume "\<exists>pre post. c # u = pre @ f @ post"
    then obtain pre post where e: "c # u = pre @ f @ post" by blast
    show "(\<exists>post. c # u = f @ post) \<or> (\<exists>pre post. u = pre @ f @ post)"
    proof (cases pre)
      case Nil
      with e show ?thesis by auto
    next
      case (Cons d pre')
      with e have "u = pre' @ f @ post" by simp
      then show ?thesis by blast
    qed
  next
    assume "(\<exists>post. c # u = f @ post) \<or> (\<exists>pre post. u = pre @ f @ post)"
    then show "\<exists>pre post. c # u = pre @ f @ post"
    proof
      assume "\<exists>post. c # u = f @ post"
      then obtain post where "c # u = [] @ f @ post" by auto
      then show ?thesis by blast
    next
      assume "\<exists>pre post. u = pre @ f @ post"
      then obtain pre post where "c # u = (c # pre) @ f @ post" by auto
      then show ?thesis by blast
    qed
  qed
  with first Cons.IH show ?case by simp
qed

lemma filter_by_url_plain:
  assumes "ecmascript_on_fragment rx" and "plain_text f" and "f \<noteq> []"
  shows "filter_by_url rx (Some f) reqs =
     Inr (filter (\<lambda>r. contains_ignoring_case f (js_to_string (url r))) reqs)"
proof -
  have "replace_stars f = f"
    using assms(2) by (intro replace_stars_no_star plain_text_no_star)
  then have "fragment_pattern (replace_stars f) = Some (Inr (map (\<lambda>c. Once (Lit c)) f))"
    using assms(2) by (simp add: fragment_pattern_plain)
  from filter_by_url_fragment [OF assms(1,3) this] show ?thesis
    by (simp add: regexp_test_literal)
qed

subsection \<open>The claims about the URL filter\<close>

lemma filter_by_url_star:
  assumes "ecmascript_on_fragment rx"
  shows "filter_by_url rx (Some ''*'') reqs = Inr reqs"
proof -
  have "fragment_pattern (replace_stars ''*'') = Some (Inr [Star Dot])"
    by (simp add: fragment_pattern_def replace_stars_def quantifier_chars_def
        other_syntax_chars_def atom_of_def quantify_def flush_def)
  from filter_by_url_fragment [OF assms _ this] show ?thesis
    by (simp add: regexp_test_star)
qed

lemma plain_foo: "plain_text ''foo''"
  by (simp add: plain_text_def syntax_chars_def quantifier_chars_def other_syntax_chars_def)

lemma foo_in_FOO: "contains_ignoring_case ''foo'' ''https://FOO.com/x''"
  by (simp add: contains_ignoring_case_def to_upper_char_def lower_letters_def upper_letters_def)

lemma foo_not_in_bar: "\<not> contains_ignoring_case ''foo'' ''https://bar.com/x''"
  by (simp add: contains_ignoring_case_def to_upper_char_def lower_letters_def upper_letters_def)

lemma keeps_url_unanchored:
  assumes "ecmascript_on_fragment rx"
    and "fragment_pattern (replace_stars f) = Some (Inr ts)"
    and "keeps_url rx f (Some u)"
  shows "keeps_url rx f (Some (pre @ u @ post))"
proof (cases "f = []")
  case True
  then show ?thesis by (simp add: keeps_url_def filter_by_url_def)
next
  case False
  from assms(3) have "regexp_test ts u"
    by (simp add: keeps_url_fragment [OF assms(1) False assms(2)] js_to_string_def)
  then have "regexp_test ts (pre @ u @ post)"
    by (intro regexp_test_prepend regexp_test_append)
  then show ?thesis
    by (simp add: keeps_url_fragment [OF assms(1) False assms(2)] js_to_string_def)
qed

lemma keeps_url_case:
  assumes "ecmascript_on_fragment rx"
    and "fragment_pattern (replace_stars f) = Some (Inr ts)"
  shows "keeps_url rx f (Some (map to_upper_char u)) = keeps_url rx f (Some u)"
    and "keeps_url rx f (Some (toLowerCase u)) = keeps_url rx f (Some u)"
proof -
  have up: "regexp_test ts (map to_upper_char u) = regexp_test ts u"
    by (rule regexp_test_case_change) (simp add: atom_matches_upper)
  have low: "regexp_test ts (toLowerCase u) = regexp_test ts u"
    unfolding toLowerCase_def by (rule regexp_test_case_change) (simp add: atom_matches_lower)
  show "keeps_url rx f (Some (map to_upper_char u)) = keeps_url rx f (Some u)"
  proof (cases "f = []")
    case True
    then show ?thesis by (simp add: keeps_url_def filter_by_url_def)
  next
    case False
    show ?thesis
      by (simp add: keeps_url_fragment [OF assms(1) False assms(2)] js_to_string_def up)
  qed
  show "keeps_url rx f (Some (toLowerCase u)) = keeps_url rx f (Some u)"
  proof (cases "f = []")
    case True
    then show ?thesis by (simp add: keeps_url_def filter_by_url_def)
  next
    case False
    show ?thesis
      by (simp add: keeps_url_fragment [OF assms(1) False assms(2)] js_to_string_def low)
  qed
qed

text \<open>
  Claim C5. On every engine that follows ECMAScript on the fragment, the URL filter is
  case-insensitive and unanchored after each star has become dot-star. The filter \<^verbatim>\<open>*\<close>
  keeps every record (also one without a url); the filter \<^verbatim>\<open>foo\<close> keeps a record whose
  url is \<^verbatim>\<open>https://FOO.com/x\<close> and drops one whose url is \<^verbatim>\<open>https://bar.com/x\<close>. A
  filter without syntax characters keeps exactly the records whose url contains the
  filter somewhere, case ignored. For a filter in the fragment, changing the case of the
  filter or of the url changes nothing, and a url that is kept stays kept with any text
  before and after it.
\<close>

theorem url_filter_unanchored_ignore_case:
  assumes "ecmascript_on_fragment rx"
  shows "filter_by_url rx (Some ''*'') reqs = Inr reqs \<and>
     keeps_url rx ''foo'' (Some ''https://FOO.com/x'') \<and>
     drops_url rx ''foo'' (Some ''https://bar.com/x'') \<and>
     (plain_text f \<and> f \<noteq> [] \<longrightarrow>
        filter_by_url rx (Some f) reqs =
          Inr (filter (\<lambda>r. contains_ignoring_case f (js_to_string (url r))) reqs)) \<and>
     contains_ignoring_case f u =
       (\<exists>pre post. map to_upper_char u = pre @ map to_upper_char f @ post) \<and>
     (fragment_pattern (replace_stars f) = Some parsed \<longrightarrow>
        filter_by_url rx (Some (map to_upper_char f)) reqs = filter_by_url rx (Some f) reqs \<and>
        filter_by_url rx (Some (toLowerCase f)) reqs = filter_by_url rx (Some f) reqs) \<and>
     (fragment_pattern (replace_stars f) = Some (Inr ts) \<longrightarrow>
        keeps_url rx f (Some (map to_upper_char u)) = keeps_url rx f (Some u) \<and>
        keeps_url rx f (Some (toLowerCase u)) = keeps_url rx f (Some u) \<and>
        (keeps_url rx f (Some u) \<longrightarrow> keeps_url rx f (Some (pre @ u @ post))))"
proof -
  have star: "filter_by_url rx (Some ''*'') reqs = Inr reqs"
    using assms by (rule filter_by_url_star)
  have foo: "filter_by_url rx (Some ''foo'') rs =
      Inr (filter (\<lambda>r. contains_ignoring_case ''foo'' (js_to_string (url r))) rs)" for rs
    using assms plain_foo by (rule filter_by_url_plain) simp
  have keeps: "keeps_url rx ''foo'' (Some ''https://FOO.com/x'')"
    unfolding keeps_url_def
    by (simp add: foo bare_record_def js_to_string_def foo_in_FOO)
  have drops: "drops_url rx ''foo'' (Some ''https://bar.com/x'')"
    unfolding drops_url_def
    by (simp add: foo bare_record_def js_to_string_def foo_not_in_bar)
  have plain: "filter_by_url rx (Some f) reqs =
          Inr (filter (\<lambda>r. contains_ignoring_case f (js_to_string (url r))) reqs)"
    if "plain_text f \<and> f \<noteq> []"
    using assms that by (intro filter_by_url_plain) simp_all
  have meaning: "contains_ignoring_case f u =
       (\<exists>pre post. map to_upper_char u = pre @ map to_upper_char f @ post)"
    by (simp add: contains_ignoring_case_def contains_literal_iff)
  have pattern_case: "filter_by_url rx (Some (map to_upper_char f)) reqs = filter_by_url rx (Some f) reqs \<and>
        filter_by_url rx (Some (toLowerCase f)) reqs = filter_by_url rx (Some f) reqs"
    if "fragment_pattern (replace_stars f) = Some parsed"
    unfolding toLowerCase_def
    using filter_by_url_recase [OF assms that to_upper_char_escapable recase_upper_matches]
      filter_by_url_recase [OF assms that to_lower_char_escapable recase_lower_matches]
    by blast
  have text_case: "keeps_url rx f (Some (map to_upper_char u)) = keeps_url rx f (Some u) \<and>
        keeps_url rx f (Some (toLowerCase u)) = keeps_url rx f (Some u) \<and>
        (keeps_url rx f (Some u) \<longrightarrow> keeps_url rx f (Some (pre @ u @ post)))"
    if "fragment_pattern (replace_stars f) = Some (Inr ts)"
    using keeps_url_case [OF assms that] keeps_url_unanchored [OF assms that] by blast
  from star keeps drops plain meaning pattern_case text_case show ?thesis by blast
qed

theorem url_filter_unanchored_ignore_case_witness:
  "ecmascript_on_fragment fragment_only_engine \<and>
   plain_text ''foo'' \<and>
   filter_by_url fragment_only_engine (Some ''foo'')
     [bare_record ''1'' (Some ''https://FOO.com/x'') None,
      bare_record ''2'' (Some ''https://bar.com/x'') None,
      bare_record ''3'' None None] =
     Inr [bare_record ''1'' (Some ''https://FOO.com/x'') None] \<and>
   fragment_pattern (replace_stars ''foo'') =
     Some (Inr [Once (Lit CHR ''f''), Once (Lit CHR ''o''), Once (Lit CHR ''o'')]) \<and>
   filter_by_url fragment_only_engine (Some (map to_upper_char ''foo''))
     [bare_record ''1'' (Some ''https://FOO.com/x'') None] =
   filter_by_url fragment_only_engine (Some ''foo'')
     [bare_record ''1'' (Some ''https://FOO.com/x'') None] \<and>
   keeps_url fragment_only_engine ''foo'' (Some ''FOO'') \<and>
   keeps_url fragment_only_engine ''foo'' (Some (''https://'' @ ''FOO'' @ ''.com/x''))"
proof -
  have frag: "fragment_pattern (replace_stars ''foo'') =
     Some (Inr [Once (Lit CHR ''f''), Once (Lit CHR ''o''), Once (Lit CHR ''o'')])"
    using fragment_pattern_plain [OF plain_foo] replace_stars_no_star [of "''foo''"] by simp
  have undefined_no_foo: "\<not> contains_ignoring_case ''foo'' ''undefined''"
    by (simp add: contains_ignoring_case_def to_upper_char_def lower_letters_def upper_letters_def)
  have short: "contains_ignoring_case ''foo'' ''FOO''"
    by (simp add: contains_ignoring_case_def to_upper_char_def lower_letters_def upper_letters_def)
  have k: "keeps_url fragment_only_engine ''foo'' (Some ''FOO'')"
    by (simp add: keeps_url_def filter_by_url_plain [OF fragment_only_engine_conforms plain_foo]
        bare_record_def js_to_string_def short)
  note inst = url_filter_unanchored_ignore_case [OF fragment_only_engine_conforms,
      where f = "''foo''" and u = "''FOO''" and pre = "''https://''" and post = "''.com/x''"
        and parsed = "Inr [Once (Lit CHR ''f''), Once (Lit CHR ''o''), Once (Lit CHR ''o'')]"
        and ts = "[Once (Lit CHR ''f''), Once (Lit CHR ''o''), Once (Lit CHR ''o'')]"]
  from inst [where reqs = "[bare_record ''1'' (Some ''https://FOO.com/x'') None,
      bare_record ''2'' (Some ''https://bar.com/x'') None, bare_record ''3'' None None]"]
    plain_foo
  have a: "filter_by_url fragment_only_engine (Some ''foo'')
     [bare_record ''1'' (Some ''https://FOO.com/x'') None,
      bare_record ''2'' (Some ''https://bar.com/x'') None,
      bare_record ''3'' None None] =
     Inr [bare_record ''1'' (Some ''https://FOO.com/x'') None]"
    by (simp add: bare_record_def js_to_string_def foo_in_FOO foo_not_in_bar undefined_no_foo)
  from inst [where reqs = "[bare_record ''1'' (Some ''https://FOO.com/x'') None]"] frag
  have b: "filter_by_url fragment_only_engine (Some (map to_upper_char ''foo''))
     [bare_record ''1'' (Some ''https://FOO.com/x'') None] =
   filter_by_url fragment_only_engine (Some ''foo'')
     [bare_record ''1'' (Some ''https://FOO.com/x'') None]"
    by blast
  from inst [where reqs = "[]"] frag k
  have c: "keeps_url fragment_only_engine ''foo'' (Some (''https://'' @ ''FOO'' @ ''.com/x''))"
    by blast
  from fragment_only_engine_conforms plain_foo a frag b k c show ?thesis by blast
qed

lemma filter_by_url_source:
  "f \<noteq> [] \<Longrightarrow> CHR ''*'' \<notin> set f \<Longrightarrow>
   filter_by_url rx (Some f) reqs =
     (case rx f ''i'' of
        Inl e \<Rightarrow> Inl e
      | Inr pattern_test \<Rightarrow> Inr (filter (\<lambda>r. pattern_test (js_to_string (url r))) reqs))"
  by (simp add: filter_by_url_def replace_stars_no_star)

lemma pattern_a_dot_c:
  "fragment_pattern (replace_stars ''a.c'') =
     Some (Inr [Once (Lit CHR ''a''), Once Dot, Once (Lit CHR ''c'')])"
  by (simp add: fragment_pattern_def replace_stars_def quantifier_chars_def
      other_syntax_chars_def atom_of_def quantify_def flush_def)

lemma pattern_api_opt:
  "fragment_pattern (replace_stars ''api?'') =
     Some (Inr [Once (Lit CHR ''a''), Once (Lit CHR ''p''), Opt (Lit CHR ''i'')])"
  by (simp add: fragment_pattern_def replace_stars_def quantifier_chars_def
      other_syntax_chars_def atom_of_def quantify_def flush_def)

lemma pattern_ap_plus_i:
  "fragment_pattern (replace_stars ''ap+i'') =
     Some (Inr [Once (Lit CHR ''a''), Plus (Lit CHR ''p''), Once (Lit CHR ''i'')])"
  by (simp add: fragment_pattern_def replace_stars_def quantifier_chars_def
      other_syntax_chars_def atom_of_def quantify_def flush_def)

lemma pattern_escaped_dot:
  "fragment_pattern (replace_stars (''a'' @ backslash @ ''.c'')) =
     Some (Inr [Once (Lit CHR ''a''), Once (Lit CHR ''.''), Once (Lit CHR ''c'')])"
  by (simp add: fragment_pattern_def replace_stars_def quantifier_chars_def backslash_def
      other_syntax_chars_def escapable_chars_def syntax_chars_def atom_of_def quantify_def
      flush_def)

lemma pattern_lone_plus: "fragment_pattern (replace_stars ''+'') = Some (Inl SyntaxError)"
  by (simp add: fragment_pattern_def replace_stars_def quantifier_chars_def)

lemma upper_a_c:
  "to_upper_char CHR ''a'' = CHR ''A''" "to_upper_char CHR ''b'' = CHR ''B''"
  "to_upper_char CHR ''c'' = CHR ''C''" "to_upper_char CHR ''i'' = CHR ''I''"
  "to_upper_char CHR ''p'' = CHR ''P''" "to_upper_char CHR ''.'' = CHR ''.''"
  "to_upper_char CHR ''-'' = CHR ''-''" "to_upper_char CHR ''/'' = CHR ''/''"
  "to_upper_char CHR '':'' = CHR '':''" "to_upper_char CHR ''h'' = CHR ''H''"
  "to_upper_char CHR ''t'' = CHR ''T''" "to_upper_char CHR ''x'' = CHR ''X''"
  "to_upper_char CHR 0x0A = CHR 0x0A"
  by (simp_all add: to_upper_char_def lower_letters_def upper_letters_def)

text \<open>
  Claim C10. Every character of the filter other than the star reaches the engine as it
  is: a filter without a star is itself the pattern source, whatever the engine makes of
  it, and a filter with stars is the pattern in which every other character stands
  unchanged between the compiled parts before and after it. So the metacharacters keep
  their meaning. On an engine that follows ECMAScript on the
  fragment: the dot of \<^verbatim>\<open>a.c\<close> stands for any one character but a line terminator
  (\<^verbatim>\<open>abc\<close> is kept though it does not contain the text \<^verbatim>\<open>a.c\<close>, \<^verbatim>\<open>ac\<close> is dropped);
  \<^verbatim>\<open>?\<close> and \<^verbatim>\<open>+\<close> quantify; a backslash makes the dot literal; a lone \<^verbatim>\<open>+\<close> is a
  syntax error of the query.
\<close>

theorem url_filter_metacharacters_unescaped:
  "(f \<noteq> [] \<and> CHR ''*'' \<notin> set f \<longrightarrow>
      filter_by_url rx (Some f) reqs =
        (case rx f ''i'' of
           Inl e \<Rightarrow> Inl e
         | Inr pattern_test \<Rightarrow> Inr (filter (\<lambda>r. pattern_test (js_to_string (url r))) reqs))) \<and>
   (c \<noteq> CHR ''*'' \<longrightarrow>
      filter_by_url rx (Some (xs @ c # ys)) reqs =
        (case rx (replace_stars xs @ c # replace_stars ys) ''i'' of
           Inl e \<Rightarrow> Inl e
         | Inr pattern_test \<Rightarrow> Inr (filter (\<lambda>r. pattern_test (js_to_string (url r))) reqs))) \<and>
   (ecmascript_on_fragment rx \<longrightarrow>
      keeps_url rx ''a.c'' (Some ''abc'') \<and>
      keeps_url rx ''a.c'' (Some ''a.c'') \<and>
      drops_url rx ''a.c'' (Some ''ac'') \<and>
      drops_url rx ''a.c'' (Some ''ab'') \<and>
      (d \<noteq> CHR 0x0A \<and> d \<noteq> CHR 0x0D \<longrightarrow> keeps_url rx ''a.c'' (Some [CHR ''a'', d, CHR ''c''])) \<and>
      drops_url rx ''a.c'' (Some [CHR ''a'', CHR 0x0A, CHR ''c'']) \<and>
      keeps_url rx ''api?'' (Some ''http://a/ap'') \<and>
      keeps_url rx ''api?'' (Some ''http://a/api'') \<and>
      drops_url rx ''api?'' (Some ''http://a/a-i'') \<and>
      keeps_url rx ''ap+i'' (Some ''http://a/appi'') \<and>
      drops_url rx ''ap+i'' (Some ''http://a/ai'') \<and>
      keeps_url rx (''a'' @ backslash @ ''.c'') (Some ''xa.cx'') \<and>
      drops_url rx (''a'' @ backslash @ ''.c'') (Some ''abc'') \<and>
      filter_by_url rx (Some ''+'') reqs = Inl SyntaxError) \<and>
   \<not> contains_literal ''a.c'' ''abc''"
proof -
  have source: "filter_by_url rx (Some f) reqs =
        (case rx f ''i'' of
           Inl e \<Rightarrow> Inl e
         | Inr pattern_test \<Rightarrow> Inr (filter (\<lambda>r. pattern_test (js_to_string (url r))) reqs))"
    if "f \<noteq> [] \<and> CHR ''*'' \<notin> set f"
    using that by (simp add: filter_by_url_source)
  have copy: "filter_by_url rx (Some (xs @ c # ys)) reqs =
        (case rx (replace_stars xs @ c # replace_stars ys) ''i'' of
           Inl e \<Rightarrow> Inl e
         | Inr pattern_test \<Rightarrow> Inr (filter (\<lambda>r. pattern_test (js_to_string (url r))) reqs))"
    if "c \<noteq> CHR ''*''"
  proof -
    from that have "replace_stars (xs @ c # ys) = replace_stars xs @ c # replace_stars ys"
      by (simp add: replace_stars_def)
    then show ?thesis by (simp add: filter_by_url_def)
  qed
  have instances:
      "keeps_url rx ''a.c'' (Some ''abc'') \<and>
      keeps_url rx ''a.c'' (Some ''a.c'') \<and>
      drops_url rx ''a.c'' (Some ''ac'') \<and>
      drops_url rx ''a.c'' (Some ''ab'') \<and>
      (d \<noteq> CHR 0x0A \<and> d \<noteq> CHR 0x0D \<longrightarrow> keeps_url rx ''a.c'' (Some [CHR ''a'', d, CHR ''c''])) \<and>
      drops_url rx ''a.c'' (Some [CHR ''a'', CHR 0x0A, CHR ''c'']) \<and>
      keeps_url rx ''api?'' (Some ''http://a/ap'') \<and>
      keeps_url rx ''api?'' (Some ''http://a/api'') \<and>
      drops_url rx ''api?'' (Some ''http://a/a-i'') \<and>
      keeps_url rx ''ap+i'' (Some ''http://a/appi'') \<and>
      drops_url rx ''ap+i'' (Some ''http://a/ai'') \<and>
      keeps_url rx (''a'' @ backslash @ ''.c'') (Some ''xa.cx'') \<and>
      drops_url rx (''a'' @ backslash @ ''.c'') (Some ''abc'') \<and>
      filter_by_url rx (Some ''+'') reqs = Inl SyntaxError"
    if conf: "ecmascript_on_fragment rx"
  proof -
    note dot = keeps_url_fragment [OF conf _ pattern_a_dot_c]
    note opt = keeps_url_fragment [OF conf _ pattern_api_opt]
    note plus = keeps_url_fragment [OF conf _ pattern_ap_plus_i]
    note esc = keeps_url_fragment [OF conf _ pattern_escaped_dot, simplified backslash_def,
        simplified]
    have 1: "keeps_url rx ''a.c'' (Some ''abc'')" "keeps_url rx ''a.c'' (Some ''a.c'')"
      "drops_url rx ''a.c'' (Some ''ac'')" "drops_url rx ''a.c'' (Some ''ab'')"
      "drops_url rx ''a.c'' (Some [CHR ''a'', CHR 0x0A, CHR ''c''])"
      by (simp_all add: dot js_to_string_def upper_a_c)
    have 2: "keeps_url rx ''a.c'' (Some [CHR ''a'', d, CHR ''c''])"
      if "d \<noteq> CHR 0x0A \<and> d \<noteq> CHR 0x0D"
      using that by (simp add: dot js_to_string_def upper_a_c)
    have 3: "keeps_url rx ''api?'' (Some ''http://a/ap'')"
      "keeps_url rx ''api?'' (Some ''http://a/api'')"
      "drops_url rx ''api?'' (Some ''http://a/a-i'')"
      by (simp_all add: opt js_to_string_def upper_a_c)
    have 4: "keeps_url rx ''ap+i'' (Some ''http://a/appi'')"
      "drops_url rx ''ap+i'' (Some ''http://a/ai'')"
      by (simp_all add: plus js_to_string_def upper_a_c)
    have 5: "keeps_url rx (''a'' @ backslash @ ''.c'') (Some ''xa.cx'')"
      "drops_url rx (''a'' @ backslash @ ''.c'') (Some ''abc'')"
      by (simp_all add: esc backslash_def js_to_string_def upper_a_c)
    have 6: "filter_by_url rx (Some ''+'') reqs = Inl SyntaxError"
      using filter_by_url_syntax_error [OF conf _ pattern_lone_plus] by simp
    from 1 2 3 4 5 6 show ?thesis by blast
  qed
  have literal: "\<not> contains_literal ''a.c'' ''abc''" by simp
  from source copy instances literal show ?thesis by blast
qed

theorem url_filter_metacharacters_unescaped_witness:
  "ecmascript_on_fragment fragment_only_engine \<and>
   filter_by_url fragment_only_engine (Some ''a.c'')
     [bare_record ''1'' (Some ''abc'') None, bare_record ''2'' (Some ''ac'') None] =
     Inr [bare_record ''1'' (Some ''abc'') None] \<and>
   filter_by_url fragment_only_engine (Some (''a*'' @ CHR ''.'' # ''*c''))
     [bare_record ''1'' (Some ''abc'') None, bare_record ''2'' (Some ''ac'') None] =
     (case fragment_only_engine ''a.*..*c'' ''i'' of
        Inl e \<Rightarrow> Inl e
      | Inr pattern_test \<Rightarrow> Inr (filter (\<lambda>r. pattern_test (js_to_string (url r)))
          [bare_record ''1'' (Some ''abc'') None, bare_record ''2'' (Some ''ac'') None])) \<and>
   keeps_url fragment_only_engine ''a.c'' (Some [CHR ''a'', CHR ''-'', CHR ''c'']) \<and>
   keeps_url fragment_only_engine ''api?'' (Some ''http://a/ap'') \<and>
   drops_url fragment_only_engine (''a'' @ backslash @ ''.c'') (Some ''abc'')"
proof -
  note inst = url_filter_metacharacters_unescaped [where rx = fragment_only_engine
      and f = "''a.c''" and c = "CHR ''.''" and xs = "''a*''" and ys = "''*c''"
      and d = "CHR ''-''"
      and reqs = "[bare_record ''1'' (Some ''abc'') None, bare_record ''2'' (Some ''ac'') None]"]
  have rx: "fragment_only_engine ''a.c'' ''i'' =
      Inr (regexp_test [Once (Lit CHR ''a''), Once Dot, Once (Lit CHR ''c'')])"
    using pattern_a_dot_c
    by (simp add: fragment_only_engine_def answer_on_fragment_def replace_stars_def)
  from inst have "filter_by_url fragment_only_engine (Some ''a.c'')
     [bare_record ''1'' (Some ''abc'') None, bare_record ''2'' (Some ''ac'') None] =
     (case fragment_only_engine ''a.c'' ''i'' of
           Inl e \<Rightarrow> Inl e
         | Inr pattern_test \<Rightarrow> Inr (filter (\<lambda>r. pattern_test (js_to_string (url r)))
             [bare_record ''1'' (Some ''abc'') None, bare_record ''2'' (Some ''ac'') None]))"
    by simp
  then have a: "filter_by_url fragment_only_engine (Some ''a.c'')
     [bare_record ''1'' (Some ''abc'') None, bare_record ''2'' (Some ''ac'') None] =
     Inr [bare_record ''1'' (Some ''abc'') None]"
    by (simp add: rx bare_record_def js_to_string_def upper_a_c)
  from inst have b: "filter_by_url fragment_only_engine (Some (''a*'' @ CHR ''.'' # ''*c''))
     [bare_record ''1'' (Some ''abc'') None, bare_record ''2'' (Some ''ac'') None] =
     (case fragment_only_engine ''a.*..*c'' ''i'' of
        Inl e \<Rightarrow> Inl e
      | Inr pattern_test \<Rightarrow> Inr (filter (\<lambda>r. pattern_test (js_to_string (url r)))
          [bare_record ''1'' (Some ''abc'') None, bare_record ''2'' (Some ''ac'') None]))"
    by (simp add: replace_stars_def)
  from inst fragment_only_engine_conforms
  have c: "keeps_url fragment_only_engine ''a.c'' (Some [CHR ''a'', CHR ''-'', CHR ''c''])"
    "keeps_url fragment_only_engine ''api?'' (Some ''http://a/ap'')"
    "drops_url fragment_only_engine (''a'' @ backslash @ ''.c'') (Some ''abc'')"
    by simp_all
  from fragment_only_engine_conforms a b c show ?thesis by blast
qed

section \<open>Process supervisor lemmas\<close>

lemma isChromeAccessible_unreachable:
  "unreachable (list_answer env (list_calls w)) \<Longrightarrow>
   isChromeAccessible env w =
     ((False, case list_answer env (list_calls w) of Inl err \<Rightarrow> None | Inr ts \<Rightarrow> Some ts),
      w \<lparr> list_calls := Suc (list_calls w), effects := effects w @ [ListTargets] \<rparr>)"
  by (auto simp: isChromeAccessible_def CDP_List_def do_effect_def unreachable_def
      split: sum.splits)

lemma isChromeAccessible_reachable:
  "list_answer env (list_calls w) = Inr targets \<Longrightarrow> targets \<noteq> [] \<Longrightarrow>
   isChromeAccessible env w =
     ((True, Some targets),
      w \<lparr> list_calls := Suc (list_calls w), effects := effects w @ [ListTargets] \<rparr>)"
  by (simp add: isChromeAccessible_def CDP_List_def do_effect_def)

lemma waitForChromeAccessible_all_unreachable:
  "all_unreachable env (list_calls w) n \<Longrightarrow>
   waitForChromeAccessible env n 500 w =
     (False, w \<lparr> list_calls := list_calls w + n, effects := effects w @ failed_polls n \<rparr>)"
proof (induction n arbitrary: w)
  case 0
  then show ?case by simp
next
  case (Suc n)
  from Suc.prems have u: "unreachable (list_answer env (list_calls w))"
    and rest: "all_unreachable env (Suc (list_calls w)) n" by simp_all
  let ?w' = "do_effect (Sleep 500)
      (w \<lparr> list_calls := Suc (list_calls w), effects := effects w @ [ListTargets] \<rparr>)"
  have lc: "list_calls ?w' = Suc (list_calls w)" by (simp add: do_effect_def)
  have "waitForChromeAccessible env (Suc n) 500 w = waitForChromeAccessible env n 500 ?w'"
    using isChromeAccessible_unreachable [OF u] by simp
  also have "\<dots> = (False, ?w' \<lparr> list_calls := list_calls ?w' + n,
      effects := effects ?w' @ failed_polls n \<rparr>)"
    using rest by (intro Suc.IH) (simp add: lc)
  finally show ?case by (simp add: do_effect_def)
qed

lemma slept_ms_failed_polls: "slept_ms (failed_polls n) = 500 * n"
  by (induction n) simp_all

lemma count_failed_polls: "length (filter (\<lambda>e. e = ListTargets) (failed_polls n)) = n"
  by (induction n) simp_all

text \<open>Why the theorem below asks for children without an \<^verbatim>\<open>error\<close> event: when the
  \<^verbatim>\<open>pkill\<close> child emits one, the host process ends before any browser is spawned; when
  the browser child emits one, the listener's throw ends the host process before any
  result is returned.\<close>

lemma start_pkill_error_crashes:
  assumes "unreachable (list_answer env (list_calls w))" and "pkill_error env = Some msg"
  shows "start_chrome_debug env userDataDir headless w =
     (HostCrash msg,
      w \<lparr> list_calls := Suc (list_calls w), effects := effects w @ [ListTargets, Pkill] \<rparr>)"
  unfolding start_chrome_debug_def
  by (simp add: isChromeAccessible_unreachable [OF assms(1)] assms(2)
      killChromeDebugProcesses_def do_effect_def)

lemma start_spawn_error_crashes:
  assumes "unreachable (list_answer env (list_calls w))" and "pkill_error env = None"
    and "spawn_error env = Some msg"
  shows "fst (start_chrome_debug env userDataDir headless w) =
     HostCrash (''Failed to start Chrome: '' @ msg)"
  unfolding start_chrome_debug_def
  by (simp add: isChromeAccessible_unreachable [OF assms(1)] assms(2,3) Let_def
      killChromeDebugProcesses_def)

text \<open>
  Claim C7. The browser has been freshly spawned: the \<^verbatim>\<open>pkill\<close> step before the spawn
  and the spawn itself went through without an \<^verbatim>\<open>error\<close> event. When the debug
  endpoint is unreachable at the first probe and stays unreachable through the fifteen
  polls that follow the spawn (500 ms apart, 7.5 s of waiting), the start operation
  kills the spawned process, forgets its handle and returns a text that starts with
  \<^verbatim>\<open>Failed to start Chrome\<close>; the host process goes on.
\<close>

theorem start_timeout_kills_and_reports:
  assumes "all_unreachable env (list_calls w) 16"
    and "pkill_error env = None" and "spawn_error env = None"
  shows "start_chrome_debug env userDataDir headless w =
     (Text (''Failed to start Chrome: Failed to start Chrome: Chrome started but debugging interface is not accessible after 7.5 seconds''),
      w \<lparr> chromeProcess := None, list_calls := list_calls w + 16,
          effects := effects w @
            [ListTargets, Pkill, Sleep 1000,
             Spawn (getChromeExecutablePath (platform env))
               (chrome_args (case userDataDir of None \<Rightarrow> tmp_user_data_dir env
                  | Some d \<Rightarrow> if d = [] then tmp_user_data_dir env else d) headless)] @
            failed_polls 15 @ [KillProcess (spawn_pid env)] \<rparr>) \<and>
     slept_ms (failed_polls 15) = 7500 \<and>
     length (filter (\<lambda>e. e = ListTargets) (failed_polls 15)) = 15"
proof -
  have "all_unreachable env (list_calls w) (Suc 15)"
    using assms(1) by simp
  then have u: "unreachable (list_answer env (list_calls w))"
    and rest: "all_unreachable env (Suc (list_calls w)) 15"
    using all_unreachable.simps(2) [of env "list_calls w" 15] by blast+
  let ?dir = "case userDataDir of None \<Rightarrow> tmp_user_data_dir env
                  | Some d \<Rightarrow> if d = [] then tmp_user_data_dir env else d"
  let ?w1 = "w \<lparr> list_calls := Suc (list_calls w), effects := effects w @ [ListTargets] \<rparr>"
  let ?w3 = "do_effect (Spawn (getChromeExecutablePath (platform env)) (chrome_args ?dir headless))
      ((do_effect (Sleep 1000) (do_effect Pkill ?w1))
         \<lparr> chromeProcess := Some \<lparr> pid = spawn_pid env \<rparr> \<rparr>)"
  have lc: "list_calls ?w3 = Suc (list_calls w)"
    by (simp add: do_effect_def)
  have wait: "waitForChromeAccessible env 15 500 ?w3 =
      (False, ?w3 \<lparr> list_calls := list_calls ?w3 + 15, effects := effects ?w3 @ failed_polls 15 \<rparr>)"
    using rest by (intro waitForChromeAccessible_all_unreachable) (simp add: lc)
  have "start_chrome_debug env userDataDir headless w =
     (Text (''Failed to start Chrome: '' @ not_accessible_message),
      w \<lparr> chromeProcess := None, list_calls := list_calls w + 16,
          effects := effects w @
            [ListTargets, Pkill, Sleep 1000,
             Spawn (getChromeExecutablePath (platform env)) (chrome_args ?dir headless)] @
            failed_polls 15 @ [KillProcess (spawn_pid env)] \<rparr>)"
    using wait unfolding start_chrome_debug_def
    by (simp add: isChromeAccessible_unreachable [OF u] assms(2,3) Let_def
        do_effect_def killChromeDebugProcesses_def del: failed_polls.simps)
  then show ?thesis
    by (simp add: not_accessible_message_def slept_ms_failed_polls count_failed_polls
        del: failed_polls.simps)
qed

text \<open>
  Claim C8. When the debug endpoint answers the first probe with at least one target,
  the start operation returns the already-running report with the number of targets; it
  has listed the targets once and done nothing else: no process is spawned or killed,
  and the process handle, the connection handle and the record store are unchanged.
\<close>

theorem start_when_already_running:
  assumes "list_answer env (list_calls w) = Inr targets" and "targets \<noteq> []"
  shows "start_chrome_debug env userDataDir headless w =
     (Text (''Chrome debug instance is already running on port 9222'' @ newline @
            ''Active targets: '' @ show_nat (length targets)),
      w \<lparr> list_calls := Suc (list_calls w), effects := effects w @ [ListTargets] \<rparr>) \<and>
     chromeProcess (snd (start_chrome_debug env userDataDir headless w)) = chromeProcess w \<and>
     cdpClient (snd (start_chrome_debug env userDataDir headless w)) = cdpClient w \<and>
     networkRequests (snd (start_chrome_debug env userDataDir headless w)) = networkRequests w \<and>
     filter is_process_effect (effects (snd (start_chrome_debug env userDataDir headless w))) =
       filter is_process_effect (effects w)"
proof -
  have "start_chrome_debug env userDataDir headless w =
     (Text (''Chrome debug instance is already running on port 9222'' @ newline @
            ''Active targets: '' @ show_nat (length targets)),
      w \<lparr> list_calls := Suc (list_calls w), effects := effects w @ [ListTargets] \<rparr>)"
    unfolding start_chrome_debug_def
    by (simp add: isChromeAccessible_reachable [OF assms] already_running_text_def
        show_target_count_def del: show_nat.simps)
  then show ?thesis by simp
qed

lemma show_nat_2: "show_nat (Suc (Suc 0)) = ''2''"
  by code_simp

theorem start_when_already_running_witness:
  "start_chrome_debug (steady_surroundings (Inr [page_target, worker_target])) None False
     initial_state =
     (Text (''Chrome debug instance is already running on port 9222'' @ newline @
            ''Active targets: 2''),
      initial_state \<lparr> list_calls := 1, effects := [ListTargets] \<rparr>)"
  using start_when_already_running [of "steady_surroundings (Inr [page_target, worker_target])"
      initial_state "[page_target, worker_target]" None False]
  by (simp add: steady_surroundings_def initial_state_def show_nat_2 del: show_nat.simps)

lemma all_unreachable_steady:
  "unreachable ans \<Longrightarrow> all_unreachable (steady_surroundings ans) k n"
  by (induction n arbitrary: k) (simp_all add: steady_surroundings_def)

theorem start_timeout_kills_and_reports_witness:
  "start_chrome_debug (steady_surroundings (Inl ''connect ECONNREFUSED 127.0.0.1:9222'')) None True
     initial_state =
     (Text (''Failed to start Chrome: Failed to start Chrome: Chrome started but debugging interface is not accessible after 7.5 seconds''),
      initial_state \<lparr> list_calls := 16,
          effects :=
            [ListTargets, Pkill, Sleep 1000,
             Spawn ''google-chrome'' (chrome_args ''/tmp/chrome-debug-1'' True)] @
            failed_polls 15 @ [KillProcess (Some 4242)] \<rparr>)"
  using start_timeout_kills_and_reports
    [of "steady_surroundings (Inl ''connect ECONNREFUSED 127.0.0.1:9222'')" initial_state None True]
    all_unreachable_steady [of "Inl ''connect ECONNREFUSED 127.0.0.1:9222''" 0 16]
  by (simp add: steady_surroundings_def initial_state_def unreachable_def
      getChromeExecutablePath_def del: failed_polls.simps all_unreachable.simps)

section \<open>Session lemmas\<close>

lemma CDP_List_answer:
  "CDP_List env w =
     (list_answer env (list_calls w),
      w \<lparr> list_calls := Suc (list_calls w), effects := effects w @ [ListTargets] \<rparr>)"
  by (simp add: CDP_List_def do_effect_def)

lemma query_connect_keeps_handle:
  assumes "list_answer env (list_calls w) = Inr targets" and "targets \<noteq> []"
    and "cdpClient w = Some client"
  shows "query_connect env w =
     (None, w \<lparr> list_calls := Suc (list_calls w), effects := effects w @ [ListTargets] \<rparr>)"
  unfolding query_connect_def
  by (simp add: isChromeAccessible_reachable [OF assms(1,2)] assms(3))

text \<open>
  open-url does what the connection contract asks for: a handle whose socket is not open
  is closed and replaced by a connection to the page target of a fresh listing.
\<close>

lemma open_url_connect_replaces_stale_handle:
  assumes "list_answer env (list_calls w) = Inr targets" and "targets \<noteq> []"
    and "list_answer env (Suc (list_calls w)) = Inr fresh"
    and "select_page_target fresh = Some pageTarget"
    and "cdpClient w = Some stale" and "readyState stale \<noteq> Some 1"
    and "connect_error env = None" and "page_enable_error env = None"
    and "network_enable_error env = None"
  shows "open_url_connect env w =
     (None,
      w \<lparr> cdpClient := Some \<lparr> client_target = webSocketDebuggerUrl pageTarget,
                               readyState = Some 1, listeners = persistent_listeners \<rparr>,
          list_calls := Suc (Suc (list_calls w)),
          effects := effects w @
            [ListTargets, ListTargets, CloseClient (client_target stale),
             Connect (webSocketDebuggerUrl pageTarget), PageEnable, NetworkEnable] \<rparr>)"
  using assms(5,6) unfolding open_url_connect_def
  by (simp add: isChromeAccessible_reachable [OF assms(1,2)] CDP_List_answer assms(3,4,7-9)
      needs_connection_def CDP_connect_def do_effect_def Let_def)

lemma open_url_connect_reuses_open_handle:
  assumes "list_answer env (list_calls w) = Inr targets" and "targets \<noteq> []"
    and "list_answer env (Suc (list_calls w)) = Inr fresh"
    and "select_page_target fresh = Some pageTarget"
    and "cdpClient w = Some client" and "readyState client = Some 1"
  shows "open_url_connect env w =
     (None, w \<lparr> list_calls := Suc (Suc (list_calls w)),
               effects := effects w @ [ListTargets, ListTargets] \<rparr>)"
  using assms(5,6) unfolding open_url_connect_def
  by (simp add: isChromeAccessible_reachable [OF assms(1,2)] CDP_List_answer assms(3,4)
      needs_connection_def)

text \<open>
  Claim C2 says that every operation that uses the connection handle replaces a handle
  whose socket is not open. query-network-traffic tests \<^verbatim>\<open>!cdpClient\<close> only: with a
  stored handle whose socket is closed it neither closes the handle nor connects again,
  and the stale handle stays. open-url, in the same state, closes it and connects to the
  page target.
\<close>

theorem query_connect_keeps_stale_handle:
  "needs_connection (cdpClient stale_state) \<and>
   query_connect (steady_surroundings (Inr [worker_target, page_target])) stale_state =
     (None, stale_state \<lparr> list_calls := 1, effects := [ListTargets] \<rparr>) \<and>
   cdpClient (snd (query_connect (steady_surroundings (Inr [worker_target, page_target]))
     stale_state)) = Some stale_client \<and>
   open_url_connect (steady_surroundings (Inr [worker_target, page_target])) stale_state =
     (None,
      stale_state \<lparr> cdpClient := Some \<lparr> client_target = webSocketDebuggerUrl page_target,
                                         readyState = Some 1, listeners = persistent_listeners \<rparr>,
          list_calls := 2,
          effects := [ListTargets, ListTargets, CloseClient (client_target stale_client),
             Connect (webSocketDebuggerUrl page_target), PageEnable, NetworkEnable] \<rparr>)"
proof -
  let ?env = "steady_surroundings (Inr [worker_target, page_target])"
  have la: "list_answer ?env n = Inr [worker_target, page_target]" for n
    by (simp add: steady_surroundings_def)
  have ne: "[worker_target, page_target] \<noteq> []" by simp
  have c: "cdpClient stale_state = Some stale_client"
    by (simp add: stale_state_def)
  have r: "readyState stale_client \<noteq> Some 1"
    by (simp add: stale_client_def)
  have sel: "select_page_target [worker_target, page_target] = Some page_target"
    by (simp add: select_page_target_def worker_target_def page_target_def)
  have errs: "connect_error ?env = None" "page_enable_error ?env = None"
    "network_enable_error ?env = None"
    by (simp_all add: steady_surroundings_def)
  have lc: "list_calls stale_state = 0" "effects stale_state = []"
    by (simp_all add: stale_state_def initial_state_def)
  have q: "query_connect ?env stale_state =
     (None, stale_state \<lparr> list_calls := 1, effects := [ListTargets] \<rparr>)"
    using query_connect_keeps_handle [OF la ne c] by (simp add: lc)
  have o: "open_url_connect ?env stale_state =
     (None,
      stale_state \<lparr> cdpClient := Some \<lparr> client_target = webSocketDebuggerUrl page_target,
                                         readyState = Some 1, listeners = persistent_listeners \<rparr>,
          list_calls := 2,
          effects := [ListTargets, ListTargets, CloseClient (client_target stale_client),
             Connect (webSocketDebuggerUrl page_target), PageEnable, NetworkEnable] \<rparr>)"
    using open_url_connect_replaces_stale_handle [OF la ne la sel c r errs] by (simp add: lc)
  have n: "needs_connection (cdpClient stale_state)"
    using r by (simp add: needs_connection_def c)
  from q o n c show ?thesis by simp
qed

section \<open>Record detail lemmas\<close>

lemma fetch_response_body_failure:
  "response_body_answer env rid = Inl msg \<Longrightarrow>
   fst (fetch_response_body env rid w) = BodyError ''Could not retrieve response body''"
  by (simp add: fetch_response_body_def body_marker_def)

lemma fetch_post_data_failure:
  "\<not> truthy_string (postData request) \<Longrightarrow> state_changing (method request) \<Longrightarrow>
   post_data_answer env rid = Inl msg \<Longrightarrow>
   fetch_post_data env request rid w = (None, do_effect (GetRequestPostData rid) w)"
  by (simp add: fetch_post_data_def)

lemma formatDetails_heading:
  "\<exists>rest. formatDetails includeHeaders (make_details rid request post body) =
     ''## '' @ js_to_string (method request) @ '' '' @ js_to_string (url request) @ newline @
     newline @ ''Status: '' @ show_status (response request) @ newline @ newline @ rest"
  by (simp add: formatDetails_def make_details_def)

text \<open>The formatter prints a fetched body only: the marker of a failed fetch is part of
  the details, not of the text.\<close>

lemma formatDetails_no_marker:
  "formatDetails includeHeaders (d \<lparr> d_responseBody := BodyError msg \<rparr>) =
   formatDetails includeHeaders (d \<lparr> d_responseBody := Body [] b \<rparr>)"
  by (simp add: formatDetails_def)

lemma get_network_details_known:
  assumes "list_answer env (list_calls w) = Inr targets" and "targets \<noteq> []"
    and "cdpClient w = Some client"
    and "map_get (networkRequests w) rid = Some request"
  shows "get_network_details env rid includeHeaders w =
     (let w1 = w \<lparr> list_calls := Suc (list_calls w), effects := effects w @ [ListTargets] \<rparr>;
          fetched_body = fetch_response_body env rid w1;
          fetched_post = fetch_post_data env request rid (snd fetched_body)
      in (Text (if valid_time_value (timestamp_or_zero request)
                then formatDetails includeHeaders
                       (make_details rid request (fst fetched_post) (fst fetched_body))
                else details_error_text ''Invalid time value''),
          snd fetched_post))"
  unfolding get_network_details_def
  by (simp add: isChromeAccessible_reachable [OF assms(1,2)] assms(3,4) Let_def
      split: prod.splits)

lemma get_network_details_invalid_time:
  assumes "list_answer env (list_calls w) = Inr targets" and "targets \<noteq> []"
    and "cdpClient w = Some client"
    and "map_get (networkRequests w) rid = Some request"
    and "\<not> valid_time_value (timestamp_or_zero request)"
  shows "fst (get_network_details env rid includeHeaders w) =
     Text (details_error_text ''Invalid time value'')"
  by (simp add: get_network_details_known [OF assms(1-4)] assms(5) Let_def)

text \<open>
  The whole report, section by section: what the operation returns for a known request id
  whose timestamp is a valid time value, whatever the two fetches answer. A failed
  body fetch contributes nothing to it, a failed post-data fetch neither.
\<close>

lemma detail_report_text:
  assumes "list_answer env (list_calls w) = Inr targets" and "targets \<noteq> []"
    and "cdpClient w = Some client"
    and "map_get (networkRequests w) rid = Some request"
    and "valid_time_value (timestamp_or_zero request)"
  shows "fst (get_network_details env rid includeHeaders w) =
     Text (''## '' @ js_to_string (method request) @ '' '' @ js_to_string (url request) @
           newline @ newline @
           ''Status: '' @ show_status (response request) @ newline @ newline @
           (if includeHeaders \<and> nonempty_headers (headers request)
            then ''### Request Headers:'' @ newline @
                 format_headers (case headers request of None \<Rightarrow> [] | Some hs \<Rightarrow> hs) @ newline
            else []) @
           (if truthy_string (fst (fetch_post_data env request rid w))
            then ''### Request Body:'' @ newline @ code_fence @ newline @
                 js_to_string (fst (fetch_post_data env request rid w)) @ newline @
                 code_fence @ newline @ newline
            else []) @
           (if includeHeaders \<and> nonempty_headers (response_headers (response request))
            then ''### Response Headers:'' @ newline @
                 format_headers (case response_headers (response request) of
                                   None \<Rightarrow> [] | Some hs \<Rightarrow> hs) @ newline
            else []) @
           (case response_body_answer env rid of
              Inl err \<Rightarrow> []
            | Inr (body, base64Encoded) \<Rightarrow>
                if body \<noteq> []
                then ''### Response Body:'' @ newline @ code_fence @ newline @ body @ newline @
                     code_fence @ newline
                else []))"
proof -
  have post: "fst (fetch_post_data env request rid w') =
      (if truthy_string (postData request) then postData request
       else if state_changing (method request)
       then (case post_data_answer env rid of Inl err \<Rightarrow> None | Inr pd \<Rightarrow> pd)
       else None)" for w'
    by (simp add: fetch_post_data_def)
  show ?thesis
    using assms(5)
    by (simp add: get_network_details_known [OF assms(1-4)] Let_def formatDetails_def
        make_details_def post fetch_response_body_def split: sum.splits prod.splits)
qed

lemma detail_fetch_failures_never_fail:
  assumes "list_answer env (list_calls w) = Inr targets" and "targets \<noteq> []"
    and "cdpClient w = Some client"
    and "map_get (networkRequests w) rid = Some request"
  shows "\<exists>post body w'.
     get_network_details env rid includeHeaders w =
       (Text (if valid_time_value (timestamp_or_zero request)
              then formatDetails includeHeaders (make_details rid request post body)
              else details_error_text ''Invalid time value''), w') \<and>
     body = (case response_body_answer env rid of
               Inl err \<Rightarrow> BodyError ''Could not retrieve response body''
             | Inr (text, base64Encoded) \<Rightarrow> Body text base64Encoded) \<and>
     (\<not> truthy_string (postData request) \<and> state_changing (method request) \<and>
      (\<exists>msg. post_data_answer env rid = Inl msg) \<longrightarrow> post = None)"
proof -
  let ?w1 = "w \<lparr> list_calls := Suc (list_calls w), effects := effects w @ [ListTargets] \<rparr>"
  let ?fb = "fetch_response_body env rid ?w1"
  let ?fp = "fetch_post_data env request rid (snd ?fb)"
  have run: "get_network_details env rid includeHeaders w =
       (Text (if valid_time_value (timestamp_or_zero request)
              then formatDetails includeHeaders (make_details rid request (fst ?fp) (fst ?fb))
              else details_error_text ''Invalid time value''), snd ?fp)"
    using get_network_details_known [OF assms, of includeHeaders] by (simp add: Let_def)
  have body: "fst ?fb = (case response_body_answer env rid of
               Inl err \<Rightarrow> BodyError ''Could not retrieve response body''
             | Inr (text, base64Encoded) \<Rightarrow> Body text base64Encoded)"
    by (simp add: fetch_response_body_def body_marker_def split: sum.splits prod.splits)
  have post: "\<not> truthy_string (postData request) \<and> state_changing (method request) \<and>
      (\<exists>msg. post_data_answer env rid = Inl msg) \<longrightarrow> fst ?fp = None"
    by (auto simp: fetch_post_data_failure)
  from run body post show ?thesis by blast
qed

lemma attached_state_facts:
  "list_answer body_failing_surroundings (list_calls attached_state) = Inr [page_target]"
  "[page_target] \<noteq> []"
  "cdpClient attached_state =
     Some \<lparr> client_target = ''ws://127.0.0.1:9222/devtools/page/1'', readyState = Some 1,
            listeners = persistent_listeners \<rparr>"
  "map_get (networkRequests attached_state) ''r7'' = Some post_record"
  by (simp_all add: body_failing_surroundings_def steady_surroundings_def attached_state_def
      initial_state_def)

lemma show_status_500: "show_int 500 = ''500''"
  by code_simp

lemma body_failing_report_no_marker:
  "\<not> contains_literal ''Could not retrieve response body'' body_failing_report"
  by (simp add: body_failing_report_def newline_def code_fence_def)

text \<open>
  Claim C9 says that a failed body fetch yields an inline marker
  \<^verbatim>\<open>Could not retrieve response body\<close> in the report. The handler does go on after the
  failure (lemma \<open>detail_fetch_failures_never_fail\<close>) and does put the marker into the
  details, but \<^verbatim>\<open>formatDetails\<close> prints \<^verbatim>\<open>responseBody.body\<close> only. Here the body fetch
  fails and the post-data fetch succeeds: the report has the heading, the status, both
  header sections and the request body, and neither a response body section nor the
  marker.
\<close>

theorem detail_report_lacks_body_marker:
  "get_network_details body_failing_surroundings ''r7'' True attached_state =
     (Text body_failing_report,
      attached_state \<lparr> list_calls := 1,
        effects := [ListTargets, GetResponseBody ''r7'', GetRequestPostData ''r7''] \<rparr>) \<and>
   response_body_answer body_failing_surroundings ''r7'' =
     Inl ''No resource with given identifier found'' \<and>
   fst (fetch_response_body body_failing_surroundings ''r7'' attached_state) =
     BodyError ''Could not retrieve response body'' \<and>
   \<not> contains_literal ''Could not retrieve response body'' body_failing_report"
proof -
  let ?env = body_failing_surroundings
  have answers: "response_body_answer ?env ''r7'' = Inl ''No resource with given identifier found''"
    "post_data_answer ?env ''r7'' = Inr (Some ''a=1'')"
    by (simp_all add: body_failing_surroundings_def steady_surroundings_def)
  have valid: "valid_time_value (timestamp_or_zero post_record)"
    by (simp add: valid_time_value_def timestamp_or_zero_def post_record_def)
  have nopost: "\<not> truthy_string (postData post_record)" "state_changing (method post_record)"
    by (simp_all add: truthy_string_def state_changing_def post_record_def)
  have fetched: "fst (fetch_post_data ?env post_record ''r7'' attached_state) = Some ''a=1''"
    by (simp add: fetch_post_data_def nopost answers)
  have report: "fst (get_network_details ?env ''r7'' True attached_state) = Text body_failing_report"
    by (simp add: detail_report_text [OF attached_state_facts valid] fetched answers)
      (simp add: post_record_def detail_response_def js_to_string_def show_status_def
        show_status_500 nonempty_headers_def response_headers_def format_headers_def
        truthy_string_def body_failing_report_def)
  have state: "snd (get_network_details ?env ''r7'' True attached_state) =
      attached_state \<lparr> list_calls := 1,
        effects := [ListTargets, GetResponseBody ''r7'', GetRequestPostData ''r7''] \<rparr>"
    by (simp add: get_network_details_known [OF attached_state_facts] Let_def
        fetch_response_body_def fetch_post_data_def nopost do_effect_def)
      (simp add: attached_state_def initial_state_def)
  from report state have run: "get_network_details ?env ''r7'' True attached_state =
     (Text body_failing_report,
      attached_state \<lparr> list_calls := 1,
        effects := [ListTargets, GetResponseBody ''r7'', GetRequestPostData ''r7''] \<rparr>)"
    by (simp only: prod_eq_iff fst_conv snd_conv simp_thms)
  have marker: "fst (fetch_response_body ?env ''r7'' attached_state) =
     BodyError ''Could not retrieve response body''"
    by (simp add: fetch_response_body_def answers body_marker_def)
  from run answers(1) marker body_failing_report_no_marker show ?thesis by simp
qed

section \<open>Quiescence lemmas\<close>

lemma stamp_all_Nil: "stamp_all [] t = t"
  by (simp add: stamp_all_def)

lemma settle_step_activity:
  "la = (case k of 0 \<Rightarrow> started_at tline | Suc j \<Rightarrow> last_activity tline j) \<Longrightarrow>
   stamp_all (events_before tline k) la = last_activity tline k"
  by (cases k) simp_all

lemma settle_step:
  "waitForNetworkSettle (Suc fuel) tline k la =
     (if 1000 \<le> tick_time tline k - stamp_all (events_before tline k) la then Some k
      else waitForNetworkSettle fuel tline (Suc k) (stamp_all (events_before tline k) la))"
  by (simp add: Let_def)

declare waitForNetworkSettle.simps(2) [simp del]

lemma settle_sound:
  "waitForNetworkSettle fuel tline k la = Some r \<Longrightarrow>
   la = (case k of 0 \<Rightarrow> started_at tline | Suc j \<Rightarrow> last_activity tline j) \<Longrightarrow>
   k \<le> r \<and> 1000 \<le> tick_time tline r - last_activity tline r \<and>
   (\<forall>j. k \<le> j \<and> j < r \<longrightarrow> tick_time tline j - last_activity tline j < 1000)"
proof (induction fuel arbitrary: k la)
  case 0
  then show ?case by simp
next
  case (Suc fuel)
  have now: "stamp_all (events_before tline k) la = last_activity tline k"
    using Suc.prems(2) by (rule settle_step_activity)
  show ?case
  proof (cases "1000 \<le> tick_time tline k - last_activity tline k")
    case True
    with Suc.prems(1) now have "r = k" by (simp add: settle_step)
    with True show ?thesis by simp
  next
    case False
    with Suc.prems(1) now
    have rec: "waitForNetworkSettle fuel tline (Suc k) (last_activity tline k) = Some r"
      by (simp add: settle_step)
    have "Suc k \<le> r \<and> 1000 \<le> tick_time tline r - last_activity tline r \<and>
      (\<forall>j. Suc k \<le> j \<and> j < r \<longrightarrow> tick_time tline j - last_activity tline j < 1000)"
      using rec by (rule Suc.IH) simp
    moreover have "tick_time tline j - last_activity tline j < 1000"
      if "k \<le> j" "j < r" "\<not> Suc k \<le> j" for j
    proof -
      from that have "j = k" by simp
      with False show ?thesis by simp
    qed
    ultimately show ?thesis by (metis Suc_leD)
  qed
qed

lemma quiet_resolves:
  "\<forall>j \<ge> k. events_before tline j = [] \<Longrightarrow> 1000 \<le> tick_time tline (k + n) - la \<Longrightarrow>
   \<exists>r \<le> k + n. waitForNetworkSettle (Suc n) tline k la = Some r"
proof (induction n arbitrary: k)
  case 0
  then have "events_before tline k = []" by simp
  with 0 show ?case by (simp add: settle_step stamp_all_Nil)
next
  case (Suc n)
  have none: "events_before tline k = []" using Suc.prems(1) by simp
  show ?case
  proof (cases "1000 \<le> tick_time tline k - la")
    case True
    then have "waitForNetworkSettle (Suc (Suc n)) tline k la = Some k"
      using none by (simp add: settle_step [of "Suc n"] stamp_all_Nil)
    then show ?thesis by simp
  next
    case False
    have "\<forall>j \<ge> Suc k. events_before tline j = []" using Suc.prems(1) by simp
    moreover have "1000 \<le> tick_time tline (Suc k + n) - la" using Suc.prems(2) by simp
    ultimately obtain r where r: "r \<le> Suc k + n"
      "waitForNetworkSettle (Suc n) tline (Suc k) la = Some r"
      using Suc.IH [of "Suc k"] by blast
    have "waitForNetworkSettle (Suc (Suc n)) tline k la =
        waitForNetworkSettle (Suc n) tline (Suc k) la"
      using False none by (simp add: settle_step [of "Suc n"] stamp_all_Nil)
    with r show ?thesis by auto
  qed
qed

lemma settle_more_fuel:
  "waitForNetworkSettle a tline k la = Some r \<Longrightarrow>
   waitForNetworkSettle (a + b) tline k la = Some r"
proof (induction a arbitrary: k la)
  case 0
  then show ?case by simp
next
  case (Suc a)
  then show ?case by (auto simp: settle_step split: if_splits)
qed

lemma settle_pending_continues:
  "waitForNetworkSettle a tline k la = None \<Longrightarrow>
   \<exists>la'. \<forall>b. waitForNetworkSettle (a + b) tline k la = waitForNetworkSettle b tline (k + a) la'"
proof (induction a arbitrary: k la)
  case 0
  show ?case by (intro exI [of _ la]) simp
next
  case (Suc a)
  let ?latest = "stamp_all (events_before tline k) la"
  from Suc.prems have small: "\<not> 1000 \<le> tick_time tline k - ?latest"
    and rec: "waitForNetworkSettle a tline (Suc k) ?latest = None"
    by (auto simp: settle_step split: if_splits)
  from Suc.IH [OF rec] obtain la' where
    "\<forall>b. waitForNetworkSettle (a + b) tline (Suc k) ?latest =
         waitForNetworkSettle b tline (Suc k + a) la'" by blast
  then have "\<forall>b. waitForNetworkSettle (Suc a + b) tline k la =
         waitForNetworkSettle b tline (k + Suc a) la'"
    using small by (simp add: settle_step)
  then show ?case by blast
qed

lemma settle_when_events_stop:
  assumes stop: "\<forall>j \<ge> m. events_before tline j = []"
    and grow: "\<forall>T. \<exists>K. \<forall>k \<ge> K. T \<le> tick_time tline k"
  shows "\<exists>fuel r. waitForNetworkSettle fuel tline 0 s = Some r"
proof (cases "waitForNetworkSettle m tline 0 s")
  case (Some r)
  then show ?thesis by blast
next
  case None
  from settle_pending_continues [OF None] obtain la' where
    cont: "\<forall>b. waitForNetworkSettle (m + b) tline 0 s = waitForNetworkSettle b tline m la'"
    by auto
  from grow obtain K where K: "\<forall>k \<ge> K. la' + 1000 \<le> tick_time tline k" by blast
  then have "1000 \<le> tick_time tline (m + K) - la'"
    by (simp add: le_diff_eq add.commute)
  with stop obtain r where "waitForNetworkSettle (Suc K) tline m la' = Some r"
    using quiet_resolves [of m tline K la'] by blast
  moreover from cont have "waitForNetworkSettle (m + Suc K) tline 0 s =
      waitForNetworkSettle (Suc K) tline m la'" by blast
  ultimately have "waitForNetworkSettle (m + Suc K) tline 0 s = Some r" by simp
  then show ?thesis by blast
qed

lemma busy_never_settles: "waitForNetworkSettle fuel busy_timeline k la = None"
  by (induction fuel arbitrary: k la) (simp_all add: settle_step busy_timeline_def stamp_all_def)

text \<open>
  Claim C3, as amended. The settle wait of open-url (window 1000 ms, a poll every 100 ms)
  resolves at the first poll at which at least 1000 ms have passed since the most recent
  observed network event (since the start of the wait, if there was none), so never
  earlier than 1000 ms after that event. It resolves whenever the events stop arriving and
  the clock goes on; when no event ever arrives, it resolves within ten polls of an ideal
  100 ms timer. It has no timeout.
\<close>

theorem settle_after_quiet_window:
  "(await_settle fuel tline = Some r \<longrightarrow>
      1000 \<le> tick_time tline r - last_activity tline r \<and>
      (\<forall>j < r. tick_time tline j - last_activity tline j < 1000)) \<and>
   ((\<forall>j \<ge> m. events_before tline j = []) \<and> (\<forall>T. \<exists>K. \<forall>k \<ge> K. T \<le> tick_time tline k) \<longrightarrow>
      (\<exists>enough k. await_settle enough tline = Some k)) \<and>
   ((\<forall>j. events_before tline j = []) \<and> (\<forall>k. tick_time tline k = t1 + 100 * (int k + 1)) \<and>
    started_at tline \<le> t1 \<longrightarrow>
      (\<exists>k \<le> 9. await_settle 10 tline = Some k))"
proof -
  have safety: "1000 \<le> tick_time tline r - last_activity tline r \<and>
      (\<forall>j < r. tick_time tline j - last_activity tline j < 1000)"
    if "await_settle fuel tline = Some r"
  proof -
    from that have "waitForNetworkSettle fuel tline 0 (started_at tline) = Some r"
      by (simp add: await_settle_def)
    from settle_sound [OF this] show ?thesis by simp
  qed
  have stops: "\<exists>enough k. await_settle enough tline = Some k"
    if "(\<forall>j \<ge> m. events_before tline j = []) \<and>
      (\<forall>T. \<exists>K. \<forall>k \<ge> K. T \<le> tick_time tline k)"
    unfolding await_settle_def
    using that settle_when_events_stop [of m tline "started_at tline"] by blast
  have quiet: "\<exists>k \<le> 9. await_settle 10 tline = Some k"
    if a: "(\<forall>j. events_before tline j = []) \<and>
      (\<forall>k. tick_time tline k = t1 + 100 * (int k + 1)) \<and> started_at tline \<le> t1"
  proof -
    from a have "1000 \<le> tick_time tline (0 + 9) - started_at tline" by simp
    moreover from a have "\<forall>j \<ge> 0. events_before tline j = []" by simp
    ultimately have "\<exists>r \<le> 0 + 9. waitForNetworkSettle (Suc 9) tline 0 (started_at tline) = Some r"
      by (rule quiet_resolves [rotated])
    then show ?thesis by (simp add: await_settle_def)
  qed
  from safety stops quiet show ?thesis by blast
qed

lemma short_burst_settles: "await_settle 20 short_burst_timeline = Some 13"
  by code_simp

theorem settle_after_quiet_window_witness:
  "await_settle 20 short_burst_timeline = Some 13 \<and>
   1000 \<le> tick_time short_burst_timeline 13 - last_activity short_burst_timeline 13 \<and>
   (\<exists>k \<le> 9. await_settle 10 quiet_timeline = Some k) \<and>
   (\<exists>enough k. await_settle enough short_burst_timeline = Some k)"
proof -
  have quiet: "(\<forall>j. events_before quiet_timeline j = []) \<and>
    (\<forall>k. tick_time quiet_timeline k = 5 + 100 * (int k + 1)) \<and> started_at quiet_timeline \<le> 5"
    by (simp add: quiet_timeline_def)
  have stop: "\<forall>j \<ge> 4. events_before short_burst_timeline j = []"
    by (simp add: short_burst_timeline_def)
  have grow: "\<forall>T. \<exists>K. \<forall>k \<ge> K. T \<le> tick_time short_burst_timeline k"
  proof
    fix T :: int
    have "\<forall>k \<ge> nat T. T \<le> tick_time short_burst_timeline k"
      by (auto simp: short_burst_timeline_def)
    then show "\<exists>K. \<forall>k \<ge> K. T \<le> tick_time short_burst_timeline k" by blast
  qed
  from settle_after_quiet_window [of 20 short_burst_timeline 13 4 5] short_burst_settles stop grow
  have a: "1000 \<le> tick_time short_burst_timeline 13 - last_activity short_burst_timeline 13"
    and b: "\<exists>enough k. await_settle enough short_burst_timeline = Some k"
    by blast+
  from settle_after_quiet_window [of 10 quiet_timeline 9 0 5] quiet
  have c: "\<exists>k \<le> 9. await_settle 10 quiet_timeline = Some k" by blast
  from short_burst_settles a b c show ?thesis by blast
qed

text \<open>
  The wait does not always resolve: on a page that causes a network event between every
  two polls, no poll ever sees 1000 ms without activity, whatever the number of polls.
\<close>

theorem settle_never_under_steady_traffic_counterexample:
  "\<not> (\<exists>fuel k. await_settle fuel busy_timeline = Some k)"
  by (simp add: await_settle_def busy_never_settles)

end
